theory Spec2Isabelle
  imports Complex_Main "HOL-Library.Word" "HOL-Library.Sublist" "HOL-Library.AList"
begin

section \<open>JavaScript strings\<close>

text \<open>
  A JavaScript string is a sequence of UTF-16 code units; \<open>length\<close>, \<open>substring\<close>,
  \<open>indexOf\<close> and the regular expressions of the source (none has the \<open>u\<close> flag) all count
  and address code units. String literals of the source are ASCII and written with \<open>lit\<close>.
\<close>

type_synonym jschar = "16 word"
type_synonym jsstring = "jschar list"
type_synonym byte = "8 word"

definition lit :: "string \<Rightarrow> jsstring" where
  "lit s = map of_char s"

text \<open>
  \<open>String.prototype.trim\<close> strips the code points of WhiteSpace and LineTerminator of
  ECMAScript: TAB, LF, VT, FF, CR, SP, NBSP, U+1680, U+2000 to U+200A, LS, PS, U+202F, U+205F,
  U+3000 and U+FEFF.
\<close>

definition isWhiteSpace :: "jschar \<Rightarrow> bool" where
  "isWhiteSpace c \<longleftrightarrow>
     c = 0x09 \<or> c = 0x0A \<or> c = 0x0B \<or> c = 0x0C \<or> c = 0x0D \<or> c = 0x20 \<or> c = 0xA0 \<or>
     c = 0x1680 \<or> (0x2000 \<le> c \<and> c \<le> 0x200A) \<or> c = 0x2028 \<or> c = 0x2029 \<or>
     c = 0x202F \<or> c = 0x205F \<or> c = 0x3000 \<or> c = 0xFEFF"

definition trim :: "jsstring \<Rightarrow> jsstring" where
  "trim s = rev (dropWhile isWhiteSpace (rev (dropWhile isWhiteSpace s)))"

text \<open>\<open>s.substring(a, b)\<close> for non-negative arguments: both are clamped to the length and
  swapped when \<open>a > b\<close>.\<close>

definition substring :: "jsstring \<Rightarrow> nat \<Rightarrow> nat \<Rightarrow> jsstring" where
  "substring s a b = (let lo = min a b; hi = max a b in take (hi - lo) (drop lo s))"

text \<open>\<open>s.includes(q)\<close>, \<open>s.indexOf(q)\<close> (\<open>None\<close> for \<open>-1\<close>) and \<open>s.startsWith(q)\<close>.\<close>

fun js_includes :: "jsstring \<Rightarrow> jsstring \<Rightarrow> bool" where
  "js_includes [] q = (q = [])"
| "js_includes (c # cs) q = (prefix q (c # cs) \<or> js_includes cs q)"

fun js_indexOf :: "jsstring \<Rightarrow> jsstring \<Rightarrow> nat option" where
  "js_indexOf [] q = (if q = [] then Some 0 else None)"
| "js_indexOf (c # cs) q = (if prefix q (c # cs) then Some 0 else map_option Suc (js_indexOf cs q))"

definition js_startsWith :: "jsstring \<Rightarrow> jsstring \<Rightarrow> bool" where
  "js_startsWith s q = prefix q s"

text \<open>\<open>s.split(sep)\<close> for a separator of one code unit, and \<open>xs.join(sep)\<close>.\<close>

fun js_split :: "jschar \<Rightarrow> jsstring \<Rightarrow> jsstring list" where
  "js_split sep [] = [[]]"
| "js_split sep (c # cs) =
     (if c = sep then [] # js_split sep cs
      else (case js_split sep cs of [] \<Rightarrow> [[c]] | p # ps \<Rightarrow> (c # p) # ps))"

fun js_join :: "jsstring \<Rightarrow> jsstring list \<Rightarrow> jsstring" where
  "js_join sep [] = []"
| "js_join sep [x] = x"
| "js_join sep (x # y # ys) = x @ sep @ js_join sep (y # ys)"

definition LF :: jschar where
  "LF = 0x0A"

text \<open>A non-negative integer in a template literal, \<open>`${i}`\<close>: its decimal digits.\<close>

function decimal :: "nat \<Rightarrow> jsstring" where
  "decimal n = (if n < 10 then [of_nat (48 + n)] else decimal (n div 10) @ [of_nat (48 + n mod 10)])"
  by pat_completeness auto
termination
  by (relation "measure id") auto

declare decimal.simps [simp del]

text \<open>
  \<open>parseInt\<close> of a string of decimal digits is a Number, that is, a double: the value
  of the digits rounded to the nearest number with 53 significant bits, to the even one
  of two that are equally near, and \<open>Infinity\<close> when the rounded value is \<open>2 ^ 1024\<close> or
  more. \<open>shift_count n\<close> is the number of bits of \<open>n\<close> beyond 53.
\<close>

datatype jsnum = NumberValue nat | NumberInfinity

function shift_count :: "nat \<Rightarrow> nat" where
  "shift_count n = (if n < 2 ^ 53 then 0 else Suc (shift_count (n div 2)))"
  by pat_completeness auto
termination
  by (relation "measure id") auto

declare shift_count.simps [simp del]

definition to_number :: "nat \<Rightarrow> jsnum" where
  "to_number n =
     (let e = shift_count n; q = n div 2 ^ e; r = n mod 2 ^ e;
          m = (if 2 * r > 2 ^ e \<or> (2 * r = 2 ^ e \<and> odd q) then q + 1 else q)
      in if m * 2 ^ e < 2 ^ 1024 then NumberValue (m * 2 ^ e) else NumberInfinity)"

definition isDigit :: "jschar \<Rightarrow> bool" where
  "isDigit c \<longleftrightarrow> 0x30 \<le> c \<and> c \<le> 0x39"

definition parseInt :: "jsstring \<Rightarrow> jsnum" where
  "parseInt ds = to_number (foldl (\<lambda>n d. 10 * n + (unat d - 48)) 0 ds)"

text \<open>
  The regular expression \<open>/\[Page (\d+)\]/\<close>: the leftmost position where \<open>[Page \<close>, one or
  more ASCII digits and \<open>]\<close> follow each other; \<open>parseInt\<close> of the digits.
\<close>

definition page_marker_at :: "jsstring \<Rightarrow> jsnum option" where
  "page_marker_at s =
     (if prefix (lit ''[Page '') s then
        (let r = drop 6 s; ds = takeWhile isDigit r
         in if ds \<noteq> [] \<and> prefix (lit '']'') (drop (length ds) r) then Some (parseInt ds)
            else None)
      else None)"

fun match_page :: "jsstring \<Rightarrow> jsnum option" where
  "match_page [] = None"
| "match_page (c # cs) =
     (case page_marker_at (c # cs) of Some n \<Rightarrow> Some n | None \<Rightarrow> match_page cs)"

text \<open>A stable sort with a comparison function, as \<open>Array.prototype.sort\<close> is: \<open>x\<close> goes
  before \<open>y\<close> when \<open>cmp x y < 0\<close>, and elements that compare equal keep their order.\<close>

fun insert_by :: "('a \<Rightarrow> 'a \<Rightarrow> int) \<Rightarrow> 'a \<Rightarrow> 'a list \<Rightarrow> 'a list" where
  "insert_by cmp x [] = [x]"
| "insert_by cmp x (y # ys) =
     (if cmp x y \<le> 0 then x # y # ys else y # insert_by cmp x ys)"

definition sort_by :: "('a \<Rightarrow> 'a \<Rightarrow> int) \<Rightarrow> 'a list \<Rightarrow> 'a list" where
  "sort_by cmp xs = foldr (insert_by cmp) xs []"

section \<open>JSON values and files\<close>

datatype json =
    JUndefined
  | JNull
  | JBool bool
  | JNum real
  | JStr jsstring
  | JArr "json list"
  | JObj "(jsstring \<times> json) list"

text \<open>Property access \<open>v.k\<close> for the keys the source reads (none of them is a property of
  a prototype); the source never reads a property of \<open>null\<close> without a \<open>try\<close> around it.\<close>

definition get_prop :: "json \<Rightarrow> jsstring \<Rightarrow> json" where
  "get_prop v k =
     (case v of
        JObj fields \<Rightarrow> (case map_of fields k of Some x \<Rightarrow> x | None \<Rightarrow> JUndefined)
      | _ \<Rightarrow> JUndefined)"

fun truthy :: "json \<Rightarrow> bool" where
  "truthy JUndefined = False"
| "truthy JNull = False"
| "truthy (JBool b) = b"
| "truthy (JNum x) = (x \<noteq> 0)"
| "truthy (JStr s) = (s \<noteq> [])"
| "truthy (JArr xs) = True"
| "truthy (JObj fields) = True"

definition js_or :: "json \<Rightarrow> json \<Rightarrow> json" where
  "js_or a b = (if truthy a then a else b)"

text \<open>
  A file is its bytes, or the UTF-8 encoding of the string that was written to it (a
  string without lone surrogates, which the encoding replaces). The storage directory
  \<open>./pdf-storage\<close> is the list of its entries, as \<open>readdir\<close> gives them: a directory with
  its files, or anything else.
\<close>

datatype fs_file = Bytes "byte list" | Utf8 jsstring

datatype item = Directory "(jsstring \<times> fs_file) list" | Other

type_synonym storage = "(jsstring \<times> item) list"

definition file_text :: "(byte list \<Rightarrow> jsstring) \<Rightarrow> fs_file \<Rightarrow> jsstring" where
  "file_text decode f = (case f of Utf8 s \<Rightarrow> s | Bytes b \<Rightarrow> decode b)"

text \<open>What \<open>fs.mkdir(p, {recursive: true})\<close> and \<open>fs.writeFile\<close> do to the storage when
  they succeed: a name that is there stays as it is, a new directory is empty, and a file
  is added to its directory or replaced there.\<close>

definition make_dir :: "jsstring \<Rightarrow> storage \<Rightarrow> storage" where
  "make_dir name st =
     (case map_of st name of
        None \<Rightarrow> st @ [(name, Directory [])]
      | Some it \<Rightarrow> st)"

definition put_file :: "jsstring \<Rightarrow> jsstring \<Rightarrow> fs_file \<Rightarrow> storage \<Rightarrow> storage" where
  "put_file dir name f st =
     (case map_of st dir of
        Some (Directory files) \<Rightarrow> AList.update dir (Directory (AList.update name f files)) st
      | _ \<Rightarrow> st)"

text \<open>For the statements about the storage: whether a name is a directory of the storage,
  and the file under a name in a directory of the storage, if there is one.\<close>

definition is_dir :: "storage \<Rightarrow> jsstring \<Rightarrow> bool" where
  "is_dir st dir = (case map_of st dir of Some (Directory files) \<Rightarrow> True | _ \<Rightarrow> False)"

definition stored_file :: "storage \<Rightarrow> jsstring \<Rightarrow> jsstring \<Rightarrow> fs_file option" where
  "stored_file st dir name =
     (case map_of st dir of Some (Directory files) \<Rightarrow> map_of files name | _ \<Rightarrow> None)"

section \<open>Text extraction (worker)\<close>

text \<open>
  The PDF library is outside the repository. \<open>getDocument\<close> rejects with an error message
  or gives the pages; a page gives the strings of its text items, or \<open>getPage\<close> or
  \<open>getTextContent\<close> rejects for it.
\<close>

datatype page = PageText "jsstring list" | PageFailed

text \<open>The loop over the pages, \<open>i\<close> the number of the next page.\<close>

fun page_loop :: "page list \<Rightarrow> nat \<Rightarrow> jsstring \<Rightarrow> jsstring" where
  "page_loop [] i fullText = fullText"
| "page_loop (p # ps) i fullText =
     page_loop ps (i + 1)
       (case p of
          PageText items \<Rightarrow>
            fullText @ lit ''[Page '' @ decimal i @ lit '']'' @ [LF]
              @ js_join (lit '' '') items @ [LF, LF]
        | PageFailed \<Rightarrow>
            fullText @ lit ''[Page '' @ decimal i @ lit ''] - Extraction failed'' @ [LF, LF])"

text \<open>The \<open>try\<close> block of \<open>extractPDFText\<close>; \<open>Inl\<close> is the message of the error thrown.\<close>

definition extract_pages ::
  "(byte list \<Rightarrow> jsstring + page list) \<Rightarrow> byte list \<Rightarrow> jsstring + jsstring" where
  "extract_pages getDocument fileBuffer =
     (case getDocument fileBuffer of
        Inl message \<Rightarrow> Inl message
      | Inr pages \<Rightarrow>
          (let fullText = page_loop pages 1 [];
               text = trim fullText
           in if length text = 0 then Inl (lit ''No text could be extracted from PDF'')
              else Inr text))"

text \<open>The \<open>catch\<close> block: the fallback on the raw buffer. \<open>decode\<close> is
  \<open>Buffer.toString('utf-8', ...)\<close>.\<close>

definition fallback_lines :: "(byte list \<Rightarrow> jsstring) \<Rightarrow> byte list \<Rightarrow> jsstring" where
  "fallback_lines decode fileBuffer =
     (let bufferString = decode (take (min 10000 (length fileBuffer)) fileBuffer)
      in js_join [LF]
           (take 50
             (filter (\<lambda>line. length (trim line) > 0 \<and> \<not> js_includes line (lit ''%PDF'')
                              \<and> \<not> js_includes line (lit ''xref''))
               (js_split LF bufferString))))"

definition extractPDFText ::
  "(byte list \<Rightarrow> jsstring + page list) \<Rightarrow> (byte list \<Rightarrow> jsstring) \<Rightarrow> byte list
     \<Rightarrow> jsstring + jsstring" where
  "extractPDFText getDocument decode fileBuffer =
     (case extract_pages getDocument fileBuffer of
        Inr text \<Rightarrow> Inr text
      | Inl message \<Rightarrow>
          (let lines = fallback_lines decode fileBuffer
           in if length lines > 100 then
                Inr (lit ''[PDF Extraction Failed - Using Fallback]'' @ [LF] @ lines)
              else Inl (lit ''PDF text extraction failed: '' @ message)))"

definition extractPageReference :: "jsstring \<Rightarrow> jsnum option" where
  "extractPageReference chunk = match_page chunk"

section \<open>Chunker (worker job handler)\<close>

definition chunkSize :: nat where
  "chunkSize = 1000"

definition overlap :: nat where
  "overlap = 200"

text \<open>
  The \<open>for\<close> loop of the job handler, from offset \<open>i\<close> with the chunks pushed so far:
  \<^verbatim>\<open>
  for (let i = 0; i < extractedText.length; i += chunkSize - overlap) {
    const chunk = extractedText.substring(i, i + chunkSize);
    if (chunk.trim().length > 0) { chunks.push(chunk); }
    if (chunks.length >= 50) { break; }
  }
  \<close>
\<close>

function chunk_loop :: "jsstring \<Rightarrow> nat \<Rightarrow> jsstring list \<Rightarrow> jsstring list" where
  "chunk_loop text i chunks =
     (if i < length text then
        (let chunk = substring text i (i + chunkSize);
             chunks' = (if length (trim chunk) > 0 then chunks @ [chunk] else chunks)
         in if length chunks' \<ge> 50 then chunks'
            else chunk_loop text (i + (chunkSize - overlap)) chunks')
      else chunks)"
  by pat_completeness auto
termination
  by (relation "measure (\<lambda>(text, i, chunks). length text - i)")
     (auto simp: chunkSize_def overlap_def)

declare chunk_loop.simps [simp del]

text \<open>The same loop, recording the start offset of every chunk it pushes; \<open>n\<close> is the
  number of chunks pushed so far.\<close>

function chunk_starts :: "jsstring \<Rightarrow> nat \<Rightarrow> nat \<Rightarrow> nat list" where
  "chunk_starts text i n =
     (if i < length text then
        (let chunk = substring text i (i + chunkSize);
             pushed = (length (trim chunk) > 0);
             n' = (if pushed then n + 1 else n);
             rest = (if n' \<ge> 50 then [] else chunk_starts text (i + (chunkSize - overlap)) n')
         in if pushed then i # rest else rest)
      else [])"
  by pat_completeness auto
termination
  by (relation "measure (\<lambda>(text, i, n). length text - i)")
     (auto simp: chunkSize_def overlap_def)

declare chunk_starts.simps [simp del]

text \<open>
  \<^verbatim>\<open>
  if (extractedText.length > chunkSize) { <loop> } else { chunks.push(extractedText); }
  \<close>
\<close>

definition split_chunks :: "jsstring \<Rightarrow> jsstring list" where
  "split_chunks text =
     (if length text > chunkSize then chunk_loop text 0 [] else [text])"

text \<open>For the statements about the chunker: the window of the text at an offset, the
  rounded-up quotient, and the offsets the loop visits from \<open>i\<close> on in a text of
  length \<open>L\<close>.\<close>

definition window :: "jsstring \<Rightarrow> nat \<Rightarrow> jsstring" where
  "window t i = substring t i (i + chunkSize)"

definition ceil_div :: "nat \<Rightarrow> nat \<Rightarrow> nat" where
  "ceil_div a b = (a + b - 1) div b"

function offsets_from :: "nat \<Rightarrow> nat \<Rightarrow> nat list" where
  "offsets_from i L = (if i < L then i # offsets_from (i + (chunkSize - overlap)) L else [])"
  by pat_completeness auto
termination
  by (relation "measure (\<lambda>(i, L). L - i)") (auto simp: chunkSize_def overlap_def)

declare offsets_from.simps [simp del]

section \<open>The environment\<close>

text \<open>
  What the source takes from its runtime and from external services, as parameters:
  the PDF library, the embedding service (\<open>None\<close>: the call rejects or its result has no
  embedding), the UTF-8 decoder of \<open>Buffer\<close>, \<open>JSON.parse\<close> (\<open>None\<close>: it throws) and
  \<open>JSON.stringify\<close>, \<open>String.prototype.toLowerCase\<close>, the time value of \<open>new Date(v)\<close>,
  the formatting \<open>(v / 1024 / 1024).toFixed(2)\<close>, the message and stack of an error, the
  clock readings of one job (those of the \<open>try\<close> body and those of the \<open>catch\<close>), and
  whether the file system refuses to create a directory of the storage or to write a file
  in one (a full disk, a missing permission).
\<close>

datatype js_error =
    TypeError
  | AccessError jsstring
  | MkdirError jsstring
  | WriteError jsstring jsstring

datatype time_value = TimeThrows | TimeNaN | TimeMs int

record env =
  getDocument :: "byte list \<Rightarrow> jsstring + page list"
  embedContent :: "jsstring \<Rightarrow> json option"
  utf8_decode :: "byte list \<Rightarrow> jsstring"
  JSON_parse :: "jsstring \<Rightarrow> json option"
  JSON_stringify :: "json \<Rightarrow> jsstring"
  toLowerCase :: "jsstring \<Rightarrow> jsstring"
  date_value :: "json \<Rightarrow> time_value"
  megabytes :: "json \<Rightarrow> jsstring option"
  error_message :: "js_error \<Rightarrow> jsstring"
  error_stack :: "js_error \<Rightarrow> jsstring"
  date_now :: nat
  iso_savedAt :: jsstring
  iso_processingTime :: jsstring
  catch_now :: nat
  iso_errorAt :: jsstring
  mkdir_fails :: "jsstring \<Rightarrow> bool"
  write_fails :: "jsstring \<Rightarrow> jsstring \<Rightarrow> bool"

section \<open>Ingestion job (worker job handler)\<close>

record job =
  job_id :: jsstring
  data_file :: "jsstring option"
  data_path :: "jsstring option"
  data_filename :: "jsstring option"

text \<open>\<open>a || b\<close> on strings that may be undefined.\<close>

definition str_or :: "jsstring option \<Rightarrow> jsstring option \<Rightarrow> jsstring option" where
  "str_or a b = (case a of Some s \<Rightarrow> if s \<noteq> [] then Some s else b | None \<Rightarrow> b)"

text \<open>\<open>path.basename\<close> (POSIX): the part after the last slash, trailing slashes dropped.\<close>

definition basename :: "jsstring \<Rightarrow> jsstring" where
  "basename p =
     rev (takeWhile (\<lambda>c. c \<noteq> 0x2F) (dropWhile (\<lambda>c. c = 0x2F) (rev p)))"

text \<open>\<open>fileName.replace(/[^a-zA-Z0-9.-]/g, '_')\<close>.\<close>

definition safe_char :: "jschar \<Rightarrow> bool" where
  "safe_char c \<longleftrightarrow>
     (0x61 \<le> c \<and> c \<le> 0x7A) \<or> (0x41 \<le> c \<and> c \<le> 0x5A) \<or> (0x30 \<le> c \<and> c \<le> 0x39)
       \<or> c = 0x2E \<or> c = 0x2D"

definition sanitize :: "jsstring \<Rightarrow> jsstring" where
  "sanitize fileName = map (\<lambda>c. if safe_char c then c else 0x5F) fileName"

definition placeholder :: "jsstring \<Rightarrow> jsstring" where
  "placeholder fileName =
     lit ''PDF: '' @ fileName @ [LF, LF]
       @ lit ''Note: Text extraction partially failed. Some PDFs with complex formatting or images may not extract all text.''
       @ [LF, LF] @ lit ''Try asking questions about the PDF content anyway.''"

text \<open>The inner \<open>try\<close> of the handler: the extracted text and \<open>extractionSuccess\<close>.\<close>

definition extract_text :: "env \<Rightarrow> byte list \<Rightarrow> jsstring \<Rightarrow> jsstring \<times> bool" where
  "extract_text e fileBuffer fileName =
     (case extractPDFText (getDocument e) (utf8_decode e) fileBuffer of
        Inr text \<Rightarrow> (text, True)
      | Inl message \<Rightarrow> (placeholder fileName, False))"

record embedded_chunk =
  ec_id :: jsstring
  ec_content :: jsstring
  ec_embedding :: json
  ec_chunkIndex :: nat
  ec_pageRef :: "jsnum option"

text \<open>
  One round of the embedding loop for index \<open>i\<close>. The state is the list
  \<open>chunksWithEmbeddings\<close> and the indices of the chunks that were passed to
  \<open>embedContent\<close> so far.
\<close>

definition embed_step ::
  "(jsstring \<Rightarrow> json option) \<Rightarrow> jsstring \<Rightarrow> jsstring list \<Rightarrow> embedded_chunk list \<times> nat list
     \<Rightarrow> nat \<Rightarrow> embedded_chunk list \<times> nat list" where
  "embed_step embedFn jobId chunks state i =
     (let chunk = chunks ! i
      in if length chunk < 20 then state
         else (case embedFn chunk of
                 None \<Rightarrow> (fst state, snd state @ [i])
               | Some embedding \<Rightarrow>
                   (fst state @
                      [\<lparr>ec_id = jobId @ lit ''_'' @ decimal i, ec_content = chunk,
                        ec_embedding = embedding, ec_chunkIndex = i,
                        ec_pageRef = extractPageReference chunk\<rparr>],
                    snd state @ [i])))"

definition generate_embeddings ::
  "(jsstring \<Rightarrow> json option) \<Rightarrow> jsstring \<Rightarrow> jsstring list \<Rightarrow> embedded_chunk list \<times> nat list" where
  "generate_embeddings embedFn jobId chunks =
     (let chunksToProcess = min (length chunks) 10
      in foldl (embed_step embedFn jobId chunks) ([], []) [0..<chunksToProcess])"

text \<open>The object that is written for a chunk; \<open>JSON.stringify\<close> writes \<open>null\<close> for
  \<open>Infinity\<close>.\<close>

definition embedded_chunk_json :: "embedded_chunk \<Rightarrow> json" where
  "embedded_chunk_json c =
     JObj [(lit ''id'', JStr (ec_id c)), (lit ''content'', JStr (ec_content c)),
           (lit ''embedding'', ec_embedding c), (lit ''chunkIndex'', JNum (real (ec_chunkIndex c))),
           (lit ''pageRef'',
              (case ec_pageRef c of
                 None \<Rightarrow> JNull
               | Some (NumberValue n) \<Rightarrow> JNum (real n)
               | Some NumberInfinity \<Rightarrow> JNull))]"

record job_result =
  res_success :: bool
  res_fileName :: jsstring
  res_pdfId :: jsstring
  res_textLength :: nat
  res_chunks :: nat
  res_embeddings :: nat
  res_path :: jsstring
  res_extractionSuccess :: bool

definition storage_path :: "jsstring \<Rightarrow> jsstring" where
  "storage_path name = lit ''pdf-storage/'' @ name"

text \<open>
  \<open>fs.mkdir(p, {recursive: true})\<close> rejects when the name is there and is not a directory,
  or when the file system refuses; \<open>fs.writeFile\<close> rejects when its directory is not there,
  or when the file system refuses. \<open>Inl\<close> is the error of the rejection.
\<close>

definition mkdir :: "env \<Rightarrow> jsstring \<Rightarrow> storage \<Rightarrow> js_error + storage" where
  "mkdir e name st =
     (if mkdir_fails e name \<or> map_of st name = Some Other then Inl (MkdirError name)
      else Inr (make_dir name st))"

definition writeFile ::
  "env \<Rightarrow> jsstring \<Rightarrow> jsstring \<Rightarrow> fs_file \<Rightarrow> storage \<Rightarrow> js_error + storage" where
  "writeFile e dir name f st =
     (if write_fails e dir name \<or> \<not> is_dir st dir then Inl (WriteError dir name)
      else Inr (put_file dir name f st))"

text \<open>
  One awaited operation on the storage inside a \<open>try\<close> block. The state is the error
  thrown in the block so far, if any, and the storage; once an operation has thrown, the
  later ones are not run.
\<close>

definition attempt ::
  "(storage \<Rightarrow> js_error + storage) \<Rightarrow> js_error option \<times> storage
     \<Rightarrow> js_error option \<times> storage" where
  "attempt action w =
     (case fst w of
        Some err \<Rightarrow> w
      | None \<Rightarrow>
          (case action (snd w) of
             Inl err \<Rightarrow> (Some err, snd w)
           | Inr st' \<Rightarrow> (None, st')))"

text \<open>
  The body of the outer \<open>try\<close> once the file has been read: the result the handler
  returns when nothing throws, the error that a write has thrown, if any, and the storage
  as the body leaves it.
\<close>

definition ingest ::
  "env \<Rightarrow> job \<Rightarrow> jsstring \<Rightarrow> jsstring \<Rightarrow> byte list \<Rightarrow> storage
     \<Rightarrow> job_result \<times> js_error option \<times> storage" where
  "ingest e job filePath fileName fileBuffer st =
     (let extracted = extract_text e fileBuffer fileName;
          extractedText = fst extracted;
          extractionSuccess = snd extracted;
          chunks = split_chunks extractedText;
          chunksWithEmbeddings = fst (generate_embeddings (embedContent e) (job_id job) chunks);
          timestamp = date_now e;
          safeName = substring (sanitize fileName) 0 100;
          dir = safeName @ lit ''_'' @ job_id job @ lit ''_'' @ decimal timestamp;
          savePath = storage_path dir;
          w1 = attempt (mkdir e dir) (None, st);
          w2 = attempt (writeFile e dir (lit ''original.pdf'') (Bytes fileBuffer)) w1;
          w3 = attempt (writeFile e dir (lit ''extracted_text.txt'') (Utf8 extractedText)) w2;
          w4 = attempt (writeFile e dir (lit ''chunks.json'')
                  (Utf8 (JSON_stringify e (JArr (map JStr chunks))))) w3;
          w5 = (if length chunksWithEmbeddings > 0 then
                  attempt (writeFile e dir (lit ''chunks_with_embeddings.json'')
                    (Utf8 (JSON_stringify e (JArr (map embedded_chunk_json chunksWithEmbeddings)))))
                    w4
                else w4);
          metadata = JObj
            [(lit ''jobId'', JStr (job_id job)),
             (lit ''fileName'', JStr fileName),
             (lit ''originalName'',
                JStr (case str_or (data_filename job) (Some fileName) of
                        Some n \<Rightarrow> n | None \<Rightarrow> fileName)),
             (lit ''savedAt'', JStr (iso_savedAt e)),
             (lit ''fileSize'', JNum (real (length fileBuffer))),
             (lit ''textLength'', JNum (real (length extractedText))),
             (lit ''chunksCount'', JNum (real (length chunks))),
             (lit ''embeddingsGenerated'', JNum (real (length chunksWithEmbeddings))),
             (lit ''extractionSuccess'', JBool extractionSuccess),
             (lit ''filePath'', JStr filePath),
             (lit ''storagePath'', JStr savePath),
             (lit ''processingTime'', JStr (iso_processingTime e))];
          w6 = attempt (writeFile e dir (lit ''metadata.json'')
                  (Utf8 (JSON_stringify e metadata))) w5
      in (\<lparr>res_success = True, res_fileName = fileName, res_pdfId = dir,
           res_textLength = length extractedText, res_chunks = length chunks,
           res_embeddings = length chunksWithEmbeddings, res_path = savePath,
           res_extractionSuccess = extractionSuccess\<rparr>, w6))"

text \<open>
  The \<open>catch\<close> of the handler: the error record, saved in a \<open>try\<close> block of its own. An
  error of the save is caught and only logged, so what is left is the storage.
\<close>

definition save_error :: "env \<Rightarrow> job \<Rightarrow> jsstring \<Rightarrow> js_error \<Rightarrow> storage \<Rightarrow> storage" where
  "save_error e job fileName err st =
     (let safeName = sanitize fileName;
          dir = lit ''error_'' @ safeName @ lit ''_'' @ decimal (catch_now e);
          w1 = attempt (mkdir e dir) (None, st);
          errorMeta = JObj
            [(lit ''jobId'', JStr (job_id job)),
             (lit ''fileName'', JStr fileName),
             (lit ''error'', JStr (error_message e err)),
             (lit ''savedAt'', JStr (iso_errorAt e)),
             (lit ''stack'', JStr (error_stack e err))];
          w2 = attempt (writeFile e dir (lit ''error.json'')
                  (Utf8 (JSON_stringify e errorMeta))) w1
      in snd w2)"

text \<open>
  The job handler, for job data that is an object (or the JSON text of one) whose \<open>file\<close>,
  \<open>path\<close> and \<open>filename\<close> are strings or undefined. \<open>files\<close> are the files that can be
  read by path (the upload directory). \<open>Inl\<close> is the error the handler throws: the job
  fails. Without a path in the job data, \<open>filePath.replace\<close> throws before the \<open>try\<close>.
  When a write to the storage throws in the \<open>try\<close>, the \<open>catch\<close> saves the error record
  and throws the error again.
\<close>

definition process_job ::
  "env \<Rightarrow> (jsstring \<rightharpoonup> byte list) \<Rightarrow> job \<Rightarrow> storage \<Rightarrow> (js_error + job_result) \<times> storage" where
  "process_job e files job st =
     (case str_or (data_file job) (data_path job) of
        None \<Rightarrow> (Inl TypeError, st)
      | Some p \<Rightarrow>
          (let filePath = map (\<lambda>c. if c = 0x5C then 0x2F else c) p;
               fileName = basename filePath
           in case files filePath of
                None \<Rightarrow>
                  (Inl (AccessError filePath),
                   save_error e job fileName (AccessError filePath) st)
              | Some fileBuffer \<Rightarrow>
                  (let r = ingest e job filePath fileName fileBuffer st
                   in case fst (snd r) of
                        None \<Rightarrow> (Inr (fst r), snd (snd r))
                      | Some err \<Rightarrow>
                          (Inl err, save_error e job fileName err (snd (snd r))))))"

text \<open>
  For the statements about the job handler: the names of the directory of the document
  and of the directory of the error record, the names of the files that the handler
  writes, and that the file system lets a directory of a given name be created in the
  storage and these files be written into it.
\<close>

definition document_dir :: "env \<Rightarrow> job \<Rightarrow> jsstring \<Rightarrow> jsstring" where
  "document_dir e job fileName =
     substring (sanitize fileName) 0 100 @ lit ''_'' @ job_id job @ lit ''_''
       @ decimal (date_now e)"

definition error_dir :: "env \<Rightarrow> jsstring \<Rightarrow> jsstring" where
  "error_dir e fileName = lit ''error_'' @ sanitize fileName @ lit ''_'' @ decimal (catch_now e)"

definition written_files :: "jsstring list" where
  "written_files =
     [lit ''original.pdf'', lit ''extracted_text.txt'', lit ''chunks.json'',
      lit ''chunks_with_embeddings.json'', lit ''metadata.json'', lit ''error.json'']"

definition writable :: "env \<Rightarrow> storage \<Rightarrow> jsstring \<Rightarrow> bool" where
  "writable e st dir \<longleftrightarrow>
     \<not> mkdir_fails e dir \<and> list_all (\<lambda>name. \<not> write_fails e dir name) written_files
     \<and> map_of st dir \<noteq> Some Other"

section \<open>Read paths (API server)\<close>

record pdf =
  pdf_id :: jsstring
  pdf_name :: json
  pdf_originalName :: json
  pdf_savedAt :: json
  pdf_fileSize :: json
  pdf_textLength :: json
  pdf_chunks :: json
  pdf_embeddings :: json
  pdf_extractionSuccess :: bool
  pdf_path :: jsstring

text \<open>
  The body of the loop of \<open>listProcessedPDFs\<close> for one entry of the storage directory:
  \<open>None\<close> when the entry is skipped. Reading a property of what \<open>JSON.parse\<close> returned
  throws when that is \<open>null\<close>, and the \<open>catch\<close> skips the entry.
\<close>

definition list_entry :: "env \<Rightarrow> jsstring \<times> item \<Rightarrow> pdf option" where
  "list_entry e entry =
     (case snd entry of
        Other \<Rightarrow> None
      | Directory files \<Rightarrow>
          if js_startsWith (fst entry) (lit ''error_'') then None
          else (case map_of files (lit ''metadata.json'') of
                  None \<Rightarrow> None
                | Some f \<Rightarrow>
                    (case JSON_parse e (file_text (utf8_decode e) f) of
                       None \<Rightarrow> None
                     | Some metadata \<Rightarrow>
                         if metadata = JNull \<or> metadata = JUndefined then None
                         else Some
                           \<lparr>pdf_id = fst entry,
                            pdf_name = get_prop metadata (lit ''fileName''),
                            pdf_originalName =
                              js_or (get_prop metadata (lit ''originalName''))
                                    (get_prop metadata (lit ''fileName'')),
                            pdf_savedAt = get_prop metadata (lit ''savedAt''),
                            pdf_fileSize = get_prop metadata (lit ''fileSize''),
                            pdf_textLength =
                              js_or (get_prop metadata (lit ''textLength'')) (JNum 0),
                            pdf_chunks = js_or (get_prop metadata (lit ''chunksCount'')) (JNum 0),
                            pdf_embeddings =
                              js_or (get_prop metadata (lit ''embeddingsGenerated'')) (JNum 0),
                            pdf_extractionSuccess =
                              (get_prop metadata (lit ''extractionSuccess'') \<noteq> JBool False),
                            pdf_path = storage_path (fst entry)\<rparr>)))"

text \<open>
  The comparison function \<open>(a, b) => new Date(b.savedAt) - new Date(a.savedAt)\<close>; the sort
  takes \<open>NaN\<close> as \<open>0\<close>. \<open>new Date(v)\<close> throws for an object \<open>v\<close> that has no primitive value;
  a sort of two or more elements calls the comparison function on each of them, so it
  throws when one of them is such, and the outer \<open>catch\<close> returns the empty list. (Where
  the dates make the comparison function inconsistent, the order of the result is the one
  of this sort; the source's engine may give another one.)
\<close>

definition compare_savedAt :: "env \<Rightarrow> pdf \<Rightarrow> pdf \<Rightarrow> int" where
  "compare_savedAt e a b =
     (case (date_value e (pdf_savedAt b), date_value e (pdf_savedAt a)) of
        (TimeMs tb, TimeMs ta) \<Rightarrow> tb - ta
      | _ \<Rightarrow> 0)"

definition listProcessedPDFs :: "env \<Rightarrow> storage \<Rightarrow> pdf list" where
  "listProcessedPDFs e st =
     (let pdfs = List.map_filter (list_entry e) st
      in if length pdfs \<ge> 2 \<and> (\<exists>p \<in> set pdfs. date_value e (pdf_savedAt p) = TimeThrows)
         then []
         else sort_by (compare_savedAt e) pdfs)"

text \<open>\<open>getPDFContent\<close> for the name of a directory of the storage; \<open>None\<close> is \<open>null\<close>.\<close>

definition getPDFContent :: "env \<Rightarrow> storage \<Rightarrow> jsstring \<Rightarrow> nat \<Rightarrow> jsstring option" where
  "getPDFContent e st pdfId maxLength =
     (case map_of st pdfId of
        Some (Directory files) \<Rightarrow>
          (case map_of files (lit ''extracted_text.txt'') of
             None \<Rightarrow> None
           | Some f \<Rightarrow>
               (let text = file_text (utf8_decode e) f
                in if length text > maxLength then
                     Some (substring text 0 maxLength @ lit ''... (truncated)'')
                   else Some text))
      | _ \<Rightarrow> None)"

definition extractPageNumberFromContext :: "jsstring \<Rightarrow> jsnum option" where
  "extractPageNumberFromContext context = match_page context"

datatype match_type = TextSearch | Filename

text \<open>A search result; \<open>sr_pageRef\<close> is \<open>None\<close> where the object has no \<open>pageRef\<close>
  property, \<open>Some None\<close> where it is \<open>null\<close>.\<close>

record search_result =
  sr_pdfId :: jsstring
  sr_name :: json
  sr_score :: nat
  sr_context :: jsstring
  sr_pageRef :: "jsnum option option"
  sr_matchType :: match_type

text \<open>
  The body of the loop of \<open>searchPDFs\<close> for one document: the results it pushes.
  \<open>pdf.name.toLowerCase()\<close> throws when the name is not a string; the \<open>catch\<close> of the
  loop body then keeps what was pushed before.
\<close>

definition search_pdf :: "env \<Rightarrow> storage \<Rightarrow> jsstring \<Rightarrow> pdf \<Rightarrow> search_result list" where
  "search_pdf e st queryLower p =
     (case getPDFContent e st (pdf_id p) 5000 of
        None \<Rightarrow> []
      | Some content \<Rightarrow>
          if content = [] then []
          else
            (let contentLower = toLowerCase e content;
                 text_results =
                   (if js_includes contentLower queryLower then
                      (let index = (case js_indexOf contentLower queryLower of
                                      Some i \<Rightarrow> int i | None \<Rightarrow> - 1);
                           contextStart = nat (max 0 (index - 150));
                           contextEnd = nat (min (int (length content))
                                              (index + int (length queryLower) + 150));
                           context = substring content contextStart contextEnd
                       in [\<lparr>sr_pdfId = pdf_id p, sr_name = pdf_name p, sr_score = 100,
                             sr_context = lit ''...'' @ context @ lit ''...'',
                             sr_pageRef = Some (extractPageNumberFromContext context),
                             sr_matchType = TextSearch\<rparr>])
                    else []);
                 name_results =
                   (case pdf_name p of
                      JStr name \<Rightarrow>
                        if js_includes (toLowerCase e name) queryLower then
                          [\<lparr>sr_pdfId = pdf_id p, sr_name = pdf_name p, sr_score = 80,
                            sr_context = lit ''Filename matches: '' @ name,
                            sr_pageRef = None, sr_matchType = Filename\<rparr>]
                        else []
                    | _ \<Rightarrow> [])
             in text_results @ name_results))"

definition searchPDFs :: "env \<Rightarrow> storage \<Rightarrow> jsstring \<Rightarrow> jsstring option \<Rightarrow> search_result list" where
  "searchPDFs e st query pdfId =
     (let pdfs = listProcessedPDFs e st;
          queryLower = toLowerCase e query;
          pdfsToSearch =
            (case pdfId of
               Some i \<Rightarrow> if i \<noteq> [] then filter (\<lambda>p. pdf_id p = i) pdfs else pdfs
             | None \<Rightarrow> pdfs);
          results = concat (map (search_pdf e st queryLower) pdfsToSearch)
      in sort_by (\<lambda>a b. int (sr_score b) - int (sr_score a)) results)"

text \<open>The resolution of the target document in the \<open>/chat\<close> route.\<close>

datatype chat_target = NoPDFs | PdfNotFound "pdf list" | Target pdf

definition chat_target :: "env \<Rightarrow> storage \<Rightarrow> jsstring option \<Rightarrow> chat_target" where
  "chat_target e st pdfId =
     (let pdfs = listProcessedPDFs e st
      in if length pdfs = 0 then NoPDFs
         else (case pdfId of
                 Some i \<Rightarrow>
                   if i \<noteq> [] then
                     (case find (\<lambda>p. pdf_id p = i) pdfs of
                        None \<Rightarrow> PdfNotFound pdfs
                      | Some t \<Rightarrow> Target t)
                   else Target (hd pdfs)
               | None \<Rightarrow> Target (hd pdfs)))"

text \<open>The \<open>/recent\<close> route: \<open>None\<close> is the answer with status 500.\<close>

record recent_entry =
  re_id :: jsstring
  re_name :: json
  re_uploaded :: json
  re_size :: jsstring

definition recent_entry :: "env \<Rightarrow> pdf \<Rightarrow> recent_entry option" where
  "recent_entry e p =
     map_option
       (\<lambda>mb. \<lparr>re_id = pdf_id p, re_name = pdf_name p, re_uploaded = pdf_savedAt p,
              re_size = mb @ lit '' MB''\<rparr>)
       (megabytes e (pdf_fileSize p))"

definition recent :: "env \<Rightarrow> storage \<Rightarrow> (recent_entry list \<times> nat) option" where
  "recent e st =
     (let pdfs = listProcessedPDFs e st
      in map_option (\<lambda>rs. (rs, length pdfs)) (those (map (recent_entry e) (take 5 pdfs))))"

text \<open>
  For the statements about the read paths: the documents \<open>searchPDFs\<close> goes through, the
  entries of the storage that \<open>listProcessedPDFs\<close> does not skip for their name, kind or
  metadata file, and the names of these entries.
\<close>

definition pdfs_to_search :: "env \<Rightarrow> storage \<Rightarrow> jsstring option \<Rightarrow> pdf list" where
  "pdfs_to_search e st pdfId =
     (case pdfId of
        Some i \<Rightarrow> if i \<noteq> [] then filter (\<lambda>p. pdf_id p = i) (listProcessedPDFs e st)
                  else listProcessedPDFs e st
      | None \<Rightarrow> listProcessedPDFs e st)"

definition entry_ok :: "env \<Rightarrow> jsstring \<times> item \<Rightarrow> bool" where
  "entry_ok e entry =
     (case snd entry of
        Other \<Rightarrow> False
      | Directory files \<Rightarrow>
          \<not> js_startsWith (fst entry) (lit ''error_'')
          \<and> (case map_of files (lit ''metadata.json'') of
                None \<Rightarrow> False
              | Some f \<Rightarrow> JSON_parse e (file_text (utf8_decode e) f) \<noteq> None))"

definition visible_dir :: "env \<Rightarrow> storage \<Rightarrow> jsstring \<Rightarrow> bool" where
  "visible_dir e st name = (\<exists>it. (name, it) \<in> set st \<and> entry_ok e (name, it))"

section \<open>A sample environment\<close>

text \<open>
  For the examples: a PDF library that rejects every buffer, an embedding service that
  is down, a file system that refuses nothing, and the runtime functions restricted to
  what the examples use (ASCII text, where the UTF-8 decoder gives one code unit for each
  byte and \<open>toLowerCase\<close> changes the letters A to Z only; one metadata text that
  \<open>JSON.parse\<close> accepts).
\<close>

definition ascii_decode :: "byte list \<Rightarrow> jsstring" where
  "ascii_decode bs = map ucast bs"

definition ascii_lower :: "jsstring \<Rightarrow> jsstring" where
  "ascii_lower s = map (\<lambda>c. if 0x41 \<le> c \<and> c \<le> 0x5A then c + 0x20 else c) s"

definition sample_metadata :: json where
  "sample_metadata = JObj [(lit ''fileName'', JStr (lit ''report.pdf''))]"

definition sample_env :: env where
  "sample_env =
     \<lparr>getDocument = (\<lambda>b. Inl (lit ''Invalid PDF structure.'')),
      embedContent = (\<lambda>c. None),
      utf8_decode = ascii_decode,
      JSON_parse = (\<lambda>s. if s = lit ''{\"fileName\":\"report.pdf\"}'' then Some sample_metadata
                          else None),
      JSON_stringify = (\<lambda>v. lit ''{}''),
      toLowerCase = ascii_lower,
      date_value = (\<lambda>v. TimeNaN),
      megabytes = (\<lambda>v. Some (lit ''NaN'')),
      error_message = (\<lambda>err. lit ''ENOENT: no such file or directory''),
      error_stack = (\<lambda>err. lit ''Error: ENOENT: no such file or directory''),
      date_now = 1700000000000,
      iso_savedAt = lit ''2023-11-14T22:13:20.000Z'',
      iso_processingTime = lit ''2023-11-14T22:13:20.001Z'',
      catch_now = 1700000000002,
      iso_errorAt = lit ''2023-11-14T22:13:20.002Z'',
      mkdir_fails = (\<lambda>d. False),
      write_fails = (\<lambda>d n. False)\<rparr>"

text \<open>The same environment with a storage in which no directory can be created.\<close>

definition read_only_env :: env where
  "read_only_env = sample_env\<lparr>mkdir_fails := (\<lambda>d. True)\<rparr>"

text \<open>A file of 101 letters \<open>a\<close> and a space, which is not a PDF.\<close>

definition sample_text_file :: "byte list" where
  "sample_text_file = replicate 101 0x61 @ [0x20]"

text \<open>A job for the upload \<open>uploads/a.pdf\<close>.\<close>

definition sample_job :: job where
  "sample_job =
     \<lparr>job_id = lit ''7'', data_file = None, data_path = Some (lit ''uploads/a.pdf''),
      data_filename = Some (lit ''a.pdf'')\<rparr>"

text \<open>Storages for the examples: one with an error record, a plain file, a directory
  whose metadata does not parse and a document; one whose document has no text file; one
  whose document has a text of 5001 letters \<open>a\<close>. \<open>sample_pdf\<close> is the document as
  \<open>listProcessedPDFs\<close> gives it.\<close>

definition sample_storage :: storage where
  "sample_storage =
     [(lit ''error_a.pdf_1700000000000'', Directory [(lit ''error.json'', Utf8 (lit ''{}''))]),
      (lit ''notes.txt'', Other),
      (lit ''broken.pdf_6_1600000000000'',
         Directory [(lit ''metadata.json'', Utf8 (lit ''{'')),
                    (lit ''extracted_text.txt'', Utf8 (lit ''report''))]),
      (lit ''report.pdf_7_1700000000000'',
         Directory [(lit ''metadata.json'', Utf8 (lit ''{\"fileName\":\"report.pdf\"}'')),
                    (lit ''extracted_text.txt'',
                     Utf8 (lit ''the refund policy allows returns within 30 days [Page 4]''))])]"

definition unreadable_storage :: storage where
  "unreadable_storage =
     [(lit ''report.pdf_7_1700000000000'',
         Directory [(lit ''metadata.json'', Utf8 (lit ''{\"fileName\":\"report.pdf\"}''))])]"

definition long_storage :: storage where
  "long_storage =
     [(lit ''report.pdf_7_1700000000000'',
         Directory [(lit ''metadata.json'', Utf8 (lit ''{\"fileName\":\"report.pdf\"}'')),
                    (lit ''extracted_text.txt'', Utf8 (replicate 5001 0x61))])]"

definition sample_pdf :: pdf where
  "sample_pdf =
     \<lparr>pdf_id = lit ''report.pdf_7_1700000000000'', pdf_name = JStr (lit ''report.pdf''),
       pdf_originalName = JStr (lit ''report.pdf''), pdf_savedAt = JUndefined,
       pdf_fileSize = JUndefined, pdf_textLength = JNum 0, pdf_chunks = JNum 0,
       pdf_embeddings = JNum 0, pdf_extractionSuccess = True,
       pdf_path = lit ''pdf-storage/report.pdf_7_1700000000000''\<rparr>"

section \<open>Properties of the string operations\<close>

lemma trim_eq_Nil_iff: "trim s = [] \<longleftrightarrow> (\<forall>c\<in>set s. isWhiteSpace c)"
proof
  assume "trim s = []"
  then have "dropWhile isWhiteSpace (rev (dropWhile isWhiteSpace s)) = []"
    by (simp add: trim_def)
  then have "\<forall>c\<in>set (dropWhile isWhiteSpace s). isWhiteSpace c"
    by simp
  then have "dropWhile isWhiteSpace s = []"
    by (metis hd_dropWhile hd_in_set)
  then show "\<forall>c\<in>set s. isWhiteSpace c"
    by simp
next
  assume "\<forall>c\<in>set s. isWhiteSpace c"
  then show "trim s = []" by (auto simp: trim_def dest: set_dropWhileD)
qed

lemma trim_hd: "trim s \<noteq> [] \<Longrightarrow> \<not> isWhiteSpace (hd (trim s))"
proof -
  assume ne: "trim s \<noteq> []"
  let ?d = "dropWhile isWhiteSpace s"
  have "?d = [] \<Longrightarrow> trim s = []" by (auto simp: trim_def dest: set_dropWhileD)
  with ne have d: "?d \<noteq> []" by blast
  then have h: "\<not> isWhiteSpace (hd ?d)" by (rule hd_dropWhile)
  have "rev ?d = rev (tl ?d) @ [hd ?d]" using d by (cases ?d) auto
  then have "dropWhile isWhiteSpace (rev ?d) = dropWhile isWhiteSpace (rev (tl ?d)) @ [hd ?d]"
    using h by (simp add: dropWhile_append3)
  then have "trim s = hd ?d # rev (dropWhile isWhiteSpace (rev (tl ?d)))"
    by (simp add: trim_def)
  then show ?thesis using h by simp
qed

lemma trim_id: "s \<noteq> [] \<Longrightarrow> \<not> isWhiteSpace (hd s) \<Longrightarrow> \<not> isWhiteSpace (last s) \<Longrightarrow> trim s = s"
proof -
  assume a: "s \<noteq> []" "\<not> isWhiteSpace (hd s)" "\<not> isWhiteSpace (last s)"
  then have "dropWhile isWhiteSpace s = s" by (cases s) auto
  moreover have "dropWhile isWhiteSpace (rev s) = rev s"
    using a by (cases "rev s") (auto simp: last_rev hd_rev)
  ultimately show ?thesis by (simp add: trim_def)
qed

lemma trim_last_ws: "s \<noteq> [] \<Longrightarrow> isWhiteSpace (last s) \<Longrightarrow> trim s \<noteq> s"
proof
  assume a: "s \<noteq> []" "isWhiteSpace (last s)" and eq: "trim s = s"
  have "\<not> isWhiteSpace (hd (rev (trim s)))"
  proof -
    have "rev (trim s) = dropWhile isWhiteSpace (rev (dropWhile isWhiteSpace s))"
      by (simp add: trim_def)
    moreover have "rev (trim s) \<noteq> []" using a eq by simp
    ultimately show ?thesis by (metis hd_dropWhile)
  qed
  with a eq show False by (simp add: hd_rev)
qed

lemma window_hd: "t \<noteq> [] \<Longrightarrow> hd (window t 0) = hd t \<and> window t 0 \<noteq> []"
  by (cases t) (auto simp: window_def substring_def chunkSize_def)

section \<open>Properties of the chunker\<close>

lemma chunk_loop_starts:
  "chunk_loop t i chunks = chunks @ map (window t) (chunk_starts t i (length chunks))"
proof (induction t i chunks rule: chunk_loop.induct)
  case (1 t i chunks)
  show ?case
  proof (cases "i < length t")
    case False
    then show ?thesis by (simp add: chunk_loop.simps chunk_starts.simps)
  next
    case True
    note lt = this
    show ?thesis
    proof (cases "length (trim (substring t i (i + chunkSize))) > 0")
      case True
      show ?thesis
      proof (cases "length chunks + 1 \<ge> 50")
        case True
        with lt \<open>length (trim (substring t i (i + chunkSize))) > 0\<close> show ?thesis
          by (subst chunk_loop.simps, subst chunk_starts.simps) (simp add: window_def Let_def)
      next
        case False
        with lt \<open>length (trim (substring t i (i + chunkSize))) > 0\<close>
          "1.IH"[OF lt refl refl] show ?thesis
          by (subst chunk_loop.simps, subst chunk_starts.simps) (simp add: window_def Let_def)
      qed
    next
      case False
      show ?thesis
      proof (cases "length chunks \<ge> 50")
        case True
        with lt False show ?thesis
          by (subst chunk_loop.simps, subst chunk_starts.simps) (simp add: window_def Let_def)
      next
        case F2: False
        with lt False "1.IH"[OF lt refl refl] show ?thesis
          by (subst chunk_loop.simps, subst chunk_starts.simps) (simp add: window_def Let_def)
      qed
    qed
  qed
qed

lemma chunk_starts_filter:
  "n < 50 \<Longrightarrow> chunk_starts t i n =
     take (50 - n) (filter (\<lambda>j. trim (window t j) \<noteq> []) (offsets_from i (length t)))"
proof (induction t i n rule: chunk_starts.induct)
  case (1 t i n)
  show ?case
  proof (cases "i < length t")
    case False
    then show ?thesis by (simp add: offsets_from.simps chunk_starts.simps)
  next
    case True
    note lt = this
    note IH = "1.IH"[OF lt refl refl refl]
    show ?thesis
    proof (cases "trim (window t i) = []")
      case True
      with IH "1.prems" have "chunk_starts t (i + (chunkSize - overlap)) n =
          take (50 - n) (filter (\<lambda>j. trim (window t j) \<noteq> [])
             (offsets_from (i + (chunkSize - overlap)) (length t)))"
        by (simp add: window_def)
      with lt True "1.prems" show ?thesis
        by (subst chunk_starts.simps, subst offsets_from.simps) (simp add: window_def Let_def)
    next
      case False
      show ?thesis
      proof (cases "n + 1 \<ge> 50")
        case True
        with "1.prems" have "n = 49" by simp
        with lt False show ?thesis
          by (subst chunk_starts.simps, subst offsets_from.simps) (simp add: window_def Let_def)
      next
        case F2: False
        then have s: "50 - n = Suc (50 - (n + 1))" by simp
        from IH False F2 have "chunk_starts t (i + (chunkSize - overlap)) (n + 1) =
          take (50 - (n + 1)) (filter (\<lambda>j. trim (window t j) \<noteq> [])
             (offsets_from (i + (chunkSize - overlap)) (length t)))"
          by (simp add: window_def)
        with lt False F2 show ?thesis
          unfolding s
          by (subst chunk_starts.simps, subst offsets_from.simps) (simp add: window_def Let_def)
      qed
    qed
  qed
qed

lemma offsets_from_eq:
  "offsets_from i L = map (\<lambda>k. i + k * 800) [0..<(L - i + 799) div 800]"
proof (induction i L rule: offsets_from.induct)
  case (1 i L)
  show ?case
  proof (cases "i < L")
    case False
    then show ?thesis by (simp add: offsets_from.simps)
  next
    case True
    then have n: "(L - i + 799) div 800 = Suc ((L - (i + 800) + 799) div 800)"
      by (cases "L - i \<ge> 800") auto
    have "offsets_from i L = i # offsets_from (i + 800) L"
      using True by (subst offsets_from.simps) (simp add: chunkSize_def overlap_def)
    also have "\<dots> = i # map (\<lambda>k. i + 800 + k * 800) [0..<(L - (i + 800) + 799) div 800]"
      using 1[OF True] by (simp add: chunkSize_def overlap_def)
    also have "\<dots> = map (\<lambda>k. i + k * 800) [0..<(L - i + 799) div 800]"
      unfolding n by (simp add: upt_rec[of 0] map_Suc_upt[symmetric] del: upt_Suc)
    finally show ?thesis .
  qed
qed

lemma split_chunks_long:
  "length t > chunkSize \<Longrightarrow> split_chunks t = map (window t) (chunk_starts t 0 0)"
  using chunk_loop_starts[of t 0 "[]"] by (simp add: split_chunks_def)

lemma split_chunks_short: "length t \<le> chunkSize \<Longrightarrow> split_chunks t = [t]"
  by (simp add: split_chunks_def)

lemma chunk_starts_eq:
  "chunk_starts t 0 0 =
     take 50 (filter (\<lambda>i. trim (window t i) \<noteq> [])
       (map (\<lambda>k. k * (chunkSize - overlap)) [0..<ceil_div (length t) (chunkSize - overlap)]))"
  using chunk_starts_filter[of 0 t 0] offsets_from_eq[of 0 "length t"]
  by (simp add: ceil_div_def chunkSize_def overlap_def add.commute)

lemma sorted_offsets: "sorted_wrt (<) (map (\<lambda>k. k * (chunkSize - overlap)) [0..<n])"
  by (simp add: sorted_wrt_map chunkSize_def overlap_def sorted_wrt_iff_nth_less)

lemma chunk_starts_sorted: "sorted_wrt (<) (chunk_starts t 0 0)"
  unfolding chunk_starts_eq
  by (intro sorted_wrt_take sorted_wrt_filter sorted_offsets)

lemma chunk_count_le:
  "length (chunk_starts t 0 0) \<le> min (ceil_div (length t) (chunkSize - overlap)) 50"
proof -
  let ?c = "map (\<lambda>k. k * (chunkSize - overlap)) [0..<ceil_div (length t) (chunkSize - overlap)]"
  have "length (filter (\<lambda>i. trim (window t i) \<noteq> []) ?c) \<le> length ?c"
    by (rule length_filter_le)
  then show ?thesis unfolding chunk_starts_eq by simp
qed

lemma chunk_count_eq:
  assumes "\<forall>k. k * (chunkSize - overlap) < length t
             \<longrightarrow> trim (window t (k * (chunkSize - overlap))) \<noteq> []"
  shows "length (chunk_starts t 0 0) = min (ceil_div (length t) (chunkSize - overlap)) 50"
proof -
  let ?c = "map (\<lambda>k. k * (chunkSize - overlap)) [0..<ceil_div (length t) (chunkSize - overlap)]"
  have "\<forall>i \<in> set ?c. trim (window t i) \<noteq> []"
  proof
    fix i assume "i \<in> set ?c"
    then obtain k where k: "i = k * (chunkSize - overlap)"
      "k < ceil_div (length t) (chunkSize - overlap)" by force
    then have "k * (chunkSize - overlap) < length t"
      by (simp add: ceil_div_def chunkSize_def overlap_def)
    with assms k show "trim (window t i) \<noteq> []" by simp
  qed
  then have "filter (\<lambda>i. trim (window t i) \<noteq> []) ?c = ?c"
    by (simp only: filter_True)
  then show ?thesis unfolding chunk_starts_eq by simp
qed

lemma set_window: "set (window t i) \<subseteq> set t"
  by (auto simp: window_def substring_def Let_def dest: in_set_takeD in_set_dropD)

lemma window_nonempty: "i < length t \<Longrightarrow> window t i \<noteq> []"
  by (simp add: window_def substring_def Let_def chunkSize_def)

lemma chunk_starts_blank:
  assumes "\<forall>c \<in> set t. isWhiteSpace c"
  shows "chunk_starts t 0 0 = []"
proof -
  have "trim (window t i) = []" for i
    using assms set_window[of t i] by (auto simp: trim_eq_Nil_iff)
  then show ?thesis unfolding chunk_starts_eq by simp
qed

lemma window_nonblank:
  assumes "\<forall>c \<in> set t. \<not> isWhiteSpace c" "i < length t"
  shows "trim (window t i) \<noteq> []"
proof -
  from window_nonempty[OF assms(2)] obtain c where "c \<in> set (window t i)"
    by (cases "window t i") auto
  with assms(1) set_window[of t i] show ?thesis by (auto simp: trim_eq_Nil_iff)
qed

text \<open>
  C1 (amended). For every text of length \<open>L\<close> greater than the window size (1000) the
  chunks are the windows \<open>text.substring(i, i + 1000)\<close> at the first 50 of the offsets
  \<open>i = 0, 800, 1600, ...\<close> below \<open>L\<close> whose window is not empty after \<open>trim\<close>. So the start
  offsets of successive chunks strictly increase, there are at most
  \<open>min (ceil (L / 800)) 50\<close> chunks, and exactly that many when no window is blank.
\<close>

theorem chunker_long_text:
  assumes "length t > chunkSize"
  shows "split_chunks t = map (window t) (chunk_starts t 0 0)
     \<and> chunk_starts t 0 0 =
         take 50 (filter (\<lambda>i. trim (window t i) \<noteq> [])
           (map (\<lambda>k. k * (chunkSize - overlap))
              [0..<ceil_div (length t) (chunkSize - overlap)]))
     \<and> sorted_wrt (<) (chunk_starts t 0 0)
     \<and> length (split_chunks t) \<le> min (ceil_div (length t) (chunkSize - overlap)) 50
     \<and> ((\<forall>k. k * (chunkSize - overlap) < length t
              \<longrightarrow> trim (window t (k * (chunkSize - overlap))) \<noteq> [])
          \<longrightarrow> length (split_chunks t) = min (ceil_div (length t) (chunkSize - overlap)) 50)"
  using chunk_starts_eq[of t] chunk_starts_sorted[of t] chunk_count_le[of t] chunk_count_eq[of t]
  by (simp only: split_chunks_long[OF assms] length_map) blast

text \<open>C1, witness: a text of 1601 letters \<open>a\<close> gives three chunks.\<close>

theorem chunker_long_text_witness:
  "length (replicate 1601 (0x61::jschar)) > chunkSize
   \<and> length (split_chunks (replicate 1601 0x61)) = 3
   \<and> sorted_wrt (<) (chunk_starts (replicate 1601 0x61) 0 0)"
proof -
  let ?t = "replicate 1601 (0x61::jschar)"
  have h1: "length ?t > chunkSize" by (simp add: chunkSize_def)
  have nb: "\<forall>c \<in> set ?t. \<not> isWhiteSpace c" by (simp add: isWhiteSpace_def)
  have h2: "\<forall>k. k * (chunkSize - overlap) < length ?t
          \<longrightarrow> trim (window ?t (k * (chunkSize - overlap))) \<noteq> []"
    using window_nonblank[OF nb] by blast
  have m: "min (ceil_div 1601 (chunkSize - overlap)) 50 = 3"
    by (simp add: ceil_div_def chunkSize_def overlap_def)
  from chunker_long_text[OF h1] have s: "sorted_wrt (<) (chunk_starts ?t 0 0)"
    and c: "(\<forall>k. k * (chunkSize - overlap) < length ?t
          \<longrightarrow> trim (window ?t (k * (chunkSize - overlap))) \<noteq> [])
      \<longrightarrow> length (split_chunks ?t) = min (ceil_div (length ?t) (chunkSize - overlap)) 50"
    by blast+
  from c h2 have "length (split_chunks ?t) = min (ceil_div (length ?t) (chunkSize - overlap)) 50"
    by blast
  then have "length (split_chunks ?t) = 3" using m by simp
  with h1 s show ?thesis by blast
qed

text \<open>
  C1, counterexample to the count \<open>min (ceil ((L - overlap) / (windowSize - overlap))) 50\<close>:
  1601 letters \<open>a\<close> give three chunks where the formula gives two (the loop runs while
  \<open>i < L\<close>, so a last window lies within the overlap), and 1001 spaces give no chunk at all.
\<close>

theorem chunker_count_counterexample:
  "length (split_chunks (replicate 1601 (0x61::jschar))) = 3
   \<and> min (ceil_div (length (replicate 1601 (0x61::jschar)) - overlap) (chunkSize - overlap)) 50 = 2
   \<and> length (split_chunks (replicate 1001 (0x20::jschar))) = 0
   \<and> min (ceil_div (length (replicate 1001 (0x20::jschar)) - overlap) (chunkSize - overlap)) 50 = 2"
proof -
  let ?t = "replicate 1601 (0x61::jschar)"
  let ?b = "replicate 1001 (0x20::jschar)"
  have nb: "\<forall>c \<in> set ?t. \<not> isWhiteSpace c" by (simp add: isWhiteSpace_def)
  have "\<forall>k. k * (chunkSize - overlap) < length ?t
          \<longrightarrow> trim (window ?t (k * (chunkSize - overlap))) \<noteq> []"
    using window_nonblank[OF nb] by blast
  then have "length (chunk_starts ?t 0 0) = min (ceil_div (length ?t) (chunkSize - overlap)) 50"
    by (rule chunk_count_eq)
  then have a: "length (split_chunks ?t) = 3"
    by (simp add: split_chunks_long chunkSize_def overlap_def ceil_div_def)
  have "\<forall>c \<in> set ?b. isWhiteSpace c" by (simp add: isWhiteSpace_def)
  then have "chunk_starts ?b 0 0 = []" by (rule chunk_starts_blank)
  then have b: "length (split_chunks ?b) = 0"
    by (simp add: split_chunks_long chunkSize_def)
  show ?thesis using a b by (simp add: ceil_div_def chunkSize_def overlap_def)
qed

lemma split_chunks_nonempty:
  assumes "t \<noteq> []" "\<not> isWhiteSpace (hd t)"
  shows "split_chunks t \<noteq> []"
proof (cases "length t > chunkSize")
  case False
  then show ?thesis by (simp add: split_chunks_def)
next
  case True
  have w: "window t 0 \<noteq> []" "hd (window t 0) = hd t" using window_hd[OF assms(1)] by auto
  have "hd (window t 0) \<in> set (window t 0)" using w(1) by (rule hd_in_set)
  with assms(2) w have nb: "trim (window t 0) \<noteq> []" by (auto simp: trim_eq_Nil_iff)
  have "0 < length t" using assms(1) by simp
  then have "chunk_starts t 0 0 \<noteq> []"
    using nb by (subst chunk_starts.simps) (simp add: Let_def window_def)
  then show ?thesis using True by (simp add: split_chunks_long)
qed

lemma trim_last: "trim s \<noteq> [] \<Longrightarrow> \<not> isWhiteSpace (last (trim s))"
proof -
  assume ne: "trim s \<noteq> []"
  have "rev (trim s) = dropWhile isWhiteSpace (rev (dropWhile isWhiteSpace s))"
    by (simp add: trim_def)
  moreover have "rev (trim s) \<noteq> []" using ne by simp
  ultimately have "\<not> isWhiteSpace (hd (rev (trim s)))" by (metis hd_dropWhile)
  then show ?thesis using ne by (simp add: hd_rev)
qed

lemma trim_fixed_iff:
  "trim s = s \<longleftrightarrow> (s = [] \<or> (\<not> isWhiteSpace (hd s) \<and> \<not> isWhiteSpace (last s)))"
proof (cases "s = []")
  case True
  then show ?thesis by (simp add: trim_def)
next
  case False
  show ?thesis
  proof
    assume eq: "trim s = s"
    with False trim_hd[of s] trim_last[of s] show "s = [] \<or> (\<not> isWhiteSpace (hd s) \<and> \<not> isWhiteSpace (last s))"
      by simp
  next
    assume "s = [] \<or> (\<not> isWhiteSpace (hd s) \<and> \<not> isWhiteSpace (last s))"
    with False show "trim s = s" by (simp add: trim_id)
  qed
qed

lemma trim_idem: "trim (trim s) = trim s"
proof (cases "trim s = []")
  case True
  have "trim [] = []" by (simp add: trim_def)
  with True show ?thesis by simp
next
  case False
  with trim_hd[of s] trim_last[of s] show ?thesis by (simp add: trim_id)
qed

text \<open>
  C2 (amended). For every text of length at most the window size (1000) the chunker
  produces exactly one chunk, and that chunk is the text itself, not trimmed. It is the
  trimmed text exactly when the text is empty or neither begins nor ends with white space.
\<close>

theorem chunker_short_text:
  assumes "length t \<le> chunkSize"
  shows "split_chunks t = [t]
     \<and> (split_chunks t = [trim t]
          \<longleftrightarrow> (t = [] \<or> (\<not> isWhiteSpace (hd t) \<and> \<not> isWhiteSpace (last t))))"
  using trim_fixed_iff[of t] by (simp only: split_chunks_short[OF assms]) auto


section \<open>Properties of \<open>includes\<close>, \<open>split\<close> and \<open>join\<close>\<close>

lemma js_includes_sublist: "js_includes s q \<longleftrightarrow> sublist q s"
  by (induction s) (auto simp: sublist_Cons_right)

lemma js_includes_set: "js_includes s q \<Longrightarrow> set q \<subseteq> set s"
  by (auto simp: js_includes_sublist dest: set_mono_sublist)

lemma js_split_nonempty: "js_split sep s \<noteq> []"
  by (induction s) (auto split: list.splits)

lemma js_split_no_sep: "sep \<notin> set s \<Longrightarrow> js_split sep s = [s]"
  by (induction s) auto

lemma js_split_pieces: "l \<in> set (js_split sep s) \<Longrightarrow> sep \<notin> set l"
  by (induction s arbitrary: l) (auto split: if_splits list.splits)

lemma js_join_Cons: "ps \<noteq> [] \<Longrightarrow> js_join sep (p # ps) = p @ sep @ js_join sep ps"
  by (cases ps) auto

lemma js_join_split: "js_join [sep] (js_split sep s) = s"
proof (induction s)
  case Nil
  then show ?case by simp
next
  case (Cons c cs)
  show ?case
  proof (cases "c = sep")
    case True
    with Cons js_split_nonempty[of sep cs] show ?thesis by (simp add: js_join_Cons)
  next
    case False
    obtain p ps where ps: "js_split sep cs = p # ps"
      using js_split_nonempty[of sep cs] by (cases "js_split sep cs") auto
    with Cons False show ?thesis by (cases ps) auto
  qed
qed

section \<open>The sample file\<close>

lemma sample_fallback:
  "fallback_lines ascii_decode sample_text_file = replicate 101 0x61 @ [0x20]"
proof -
  let ?line = "replicate 101 (0x61::jschar) @ [0x20]"
  have d: "ascii_decode (take (min 10000 (length sample_text_file)) sample_text_file) = ?line"
    by (simp add: ascii_decode_def sample_text_file_def)
  have s: "js_split LF ?line = [?line]"
    by (rule js_split_no_sep) (simp add: LF_def)
  have t: "trim ?line \<noteq> []" by (simp add: trim_eq_Nil_iff isWhiteSpace_def)
  have i1: "\<not> js_includes ?line (lit ''%PDF'')"
    using js_includes_set[of ?line "lit ''%PDF''"] by (auto simp: lit_def)
  have i2: "\<not> js_includes ?line (lit ''xref'')"
    using js_includes_set[of ?line "lit ''xref''"] by (auto simp: lit_def)
  show ?thesis
    unfolding fallback_lines_def Let_def d s using t i1 i2 by simp
qed

lemma sample_extract:
  "extract_text sample_env sample_text_file fileName =
     (lit ''[PDF Extraction Failed - Using Fallback]'' @ [LF] @ replicate 101 0x61 @ [0x20], True)"
  by (simp add: extract_text_def extractPDFText_def extract_pages_def sample_env_def
        sample_fallback Let_def)

text \<open>C2, witness: the text \<open>abc\<close>.\<close>

theorem chunker_short_text_witness:
  "length (lit ''abc'') \<le> chunkSize \<and> split_chunks (lit ''abc'') = [lit ''abc'']
   \<and> split_chunks (lit ''abc'') = [trim (lit ''abc'')]"
proof -
  have h: "length (lit ''abc'') \<le> chunkSize" by (simp add: lit_def chunkSize_def)
  have w: "\<not> isWhiteSpace (hd (lit ''abc'')) \<and> \<not> isWhiteSpace (last (lit ''abc''))"
    by (simp add: lit_def isWhiteSpace_def)
  from chunker_short_text[OF h] w h show ?thesis by blast
qed

text \<open>
  C2, counterexample: for the sample file the PDF library rejects, the extracted text is
  the fallback text, which ends with the space of the file's line; it is shorter than the
  window size, and its one chunk keeps the space, so it is not the trimmed text.
\<close>

theorem chunker_trim_counterexample:
  "length (fst (extract_text sample_env sample_text_file (lit ''a.pdf''))) \<le> chunkSize
   \<and> split_chunks (fst (extract_text sample_env sample_text_file (lit ''a.pdf'')))
       \<noteq> [trim (fst (extract_text sample_env sample_text_file (lit ''a.pdf'')))]"
proof -
  let ?t = "lit ''[PDF Extraction Failed - Using Fallback]'' @ [LF] @ replicate 101 (0x61::jschar) @ [0x20]"
  have len: "length ?t \<le> chunkSize" by (simp add: lit_def chunkSize_def)
  have "isWhiteSpace (last ?t)" by (simp add: isWhiteSpace_def)
  then have "trim ?t \<noteq> ?t" by (intro trim_last_ws) simp_all
  with len show ?thesis by (simp only: sample_extract fst_conv split_chunks_short) simp
qed

section \<open>Properties of the extraction\<close>

lemma extract_text_head:
  "fst (extract_text e fileBuffer fileName) \<noteq> []
   \<and> \<not> isWhiteSpace (hd (fst (extract_text e fileBuffer fileName)))"
proof (cases "extract_pages (getDocument e) fileBuffer")
  case (Inr t)
  then obtain full where "t = trim full" "trim full \<noteq> []"
    by (auto simp: extract_pages_def Let_def split: sum.splits if_splits)
  with Inr trim_hd[of full] show ?thesis
    by (simp add: extract_text_def extractPDFText_def)
next
  case (Inl m)
  then show ?thesis
    by (simp add: extract_text_def extractPDFText_def Let_def placeholder_def lit_def
          isWhiteSpace_def)
qed

text \<open>
  C9. For every ingestion job that has read its file, the extracted text (the full text,
  the fallback text or the placeholder) is not empty and the list of chunks made from it
  is not empty: the text begins with a character that is not white space, so its first
  window is pushed.
\<close>

theorem chunks_nonempty:
  "fst (extract_text e fileBuffer fileName) \<noteq> []
   \<and> split_chunks (fst (extract_text e fileBuffer fileName)) \<noteq> []
   \<and> res_chunks (fst (ingest e job filePath fileName fileBuffer st)) > 0"
proof -
  have "split_chunks (fst (extract_text e fileBuffer fileName)) \<noteq> []"
    using extract_text_head[of e fileBuffer fileName] by (intro split_chunks_nonempty) auto
  then show ?thesis
    using extract_text_head[of e fileBuffer fileName] by (simp add: ingest_def Let_def)
qed

lemma js_split_join:
  "ls \<noteq> [] \<Longrightarrow> \<forall>l \<in> set ls. sep \<notin> set l \<Longrightarrow> js_split sep (js_join [sep] ls) = ls"
proof (induction ls)
  case Nil
  then show ?case by simp
next
  case (Cons l ls)
  have step: "sep \<notin> set a \<Longrightarrow> js_split sep (a @ sep # r) = a # js_split sep r" for a r
    by (induction a) auto
  show ?case
  proof (cases "ls = []")
    case True
    with Cons.prems show ?thesis by (simp add: js_split_no_sep)
  next
    case False
    with Cons show ?thesis by (simp add: js_join_Cons step)
  qed
qed

text \<open>
  C5. When the \<open>try\<close> block of \<open>extractPDFText\<close> throws (the PDF library rejects the
  buffer), let \<open>ls\<close> be the lines of the first \<open>min 10000 (length fileBuffer)\<close> bytes decoded
  as text, that is, the pieces without a line feed that joined by line feeds give that
  text. The lines that are empty after \<open>trim\<close> or contain \<open>%PDF\<close> or \<open>xref\<close> are discarded
  and the first 50 of the others are joined by line feeds. If the joined text is longer
  than 100, \<open>extractPDFText\<close> returns it after the marker line; otherwise it throws and the
  job handler takes the placeholder text.
\<close>

theorem fallback_extraction:
  assumes "extract_pages (getDocument e) fileBuffer = Inl message"
    and "ls \<noteq> []" and "\<forall>l \<in> set ls. LF \<notin> set l"
    and "js_join [LF] ls = utf8_decode e (take (min 10000 (length fileBuffer)) fileBuffer)"
    and "joined = js_join [LF]
           (take 50 (filter (\<lambda>l. trim l \<noteq> [] \<and> \<not> sublist (lit ''%PDF'') l
                                  \<and> \<not> sublist (lit ''xref'') l) ls))"
  shows "(if length joined > 100 then
            extractPDFText (getDocument e) (utf8_decode e) fileBuffer
              = Inr (lit ''[PDF Extraction Failed - Using Fallback]'' @ [LF] @ joined)
            \<and> extract_text e fileBuffer fileName
              = (lit ''[PDF Extraction Failed - Using Fallback]'' @ [LF] @ joined, True)
          else
            extractPDFText (getDocument e) (utf8_decode e) fileBuffer
              = Inl (lit ''PDF text extraction failed: '' @ message)
            \<and> extract_text e fileBuffer fileName = (placeholder fileName, False))"
proof -
  have "js_split LF (utf8_decode e (take (min 10000 (length fileBuffer)) fileBuffer)) = ls"
    using js_split_join[OF assms(2,3)] assms(4) by simp
  then have "fallback_lines (utf8_decode e) fileBuffer = joined"
    by (simp add: fallback_lines_def Let_def assms(5) js_includes_sublist)
  then show ?thesis
    using assms(1) by (simp add: extractPDFText_def extract_text_def Let_def)
qed

text \<open>C5, witness: the sample file, whose one line is kept.\<close>

theorem fallback_extraction_witness:
  "extractPDFText (getDocument sample_env) (utf8_decode sample_env) sample_text_file
     = Inr (lit ''[PDF Extraction Failed - Using Fallback]'' @ [LF] @ replicate 101 0x61 @ [0x20])"
proof -
  let ?line = "replicate 101 (0x61::jschar) @ [0x20]"
  have h1: "extract_pages (getDocument sample_env) sample_text_file
              = Inl (lit ''Invalid PDF structure.'')"
    by (simp add: extract_pages_def sample_env_def)
  have h2: "[?line] \<noteq> []" by simp
  have h3: "\<forall>l \<in> set [?line]. LF \<notin> set l" by (simp add: LF_def)
  have h4: "js_join [LF] [?line]
     = utf8_decode sample_env (take (min 10000 (length sample_text_file)) sample_text_file)"
    by (simp add: sample_env_def ascii_decode_def sample_text_file_def)
  have t: "trim ?line \<noteq> []" by (simp add: trim_eq_Nil_iff isWhiteSpace_def)
  have i1: "\<not> sublist (lit ''%PDF'') ?line"
    using set_mono_sublist[of "lit ''%PDF''" ?line] by (auto simp: lit_def)
  have i2: "\<not> sublist (lit ''xref'') ?line"
    using set_mono_sublist[of "lit ''xref''" ?line] by (auto simp: lit_def)
  have h5: "?line = js_join [LF]
           (take 50 (filter (\<lambda>l. trim l \<noteq> [] \<and> \<not> sublist (lit ''%PDF'') l
                                  \<and> \<not> sublist (lit ''xref'') l) [?line]))"
    using t i1 i2 by simp
  from fallback_extraction[OF h1 h2 h3 h4 h5, of "lit ''a.pdf''"] show ?thesis by simp
qed

section \<open>Properties of the storage and of the job handler\<close>

lemma map_of_make_dir:
  "map_of (make_dir d st) d' =
     (if d' = d \<and> map_of st d = None then Some (Directory []) else map_of st d')"
  by (auto simp: make_dir_def map_add_def split: option.splits)

lemma is_dir_make_dir: "map_of st d \<noteq> Some Other \<Longrightarrow> is_dir (make_dir d st) d"
  by (auto simp: is_dir_def map_of_make_dir split: option.splits item.splits)

lemma is_dir_make_dir_other: "is_dir st d' \<Longrightarrow> is_dir (make_dir d st) d'"
  by (auto simp: is_dir_def map_of_make_dir split: option.splits item.splits)

lemma stored_file_make_dir: "stored_file (make_dir d st) d' n = stored_file st d' n"
  by (auto simp: stored_file_def map_of_make_dir split: option.splits item.splits)

lemma is_dir_put_file: "is_dir (put_file d n f st) d' = is_dir st d'"
  by (auto simp: is_dir_def put_file_def AList.update_conv' split: option.splits item.splits)

lemma stored_file_put_file:
  "stored_file (put_file d n f st) d' n' =
     (if is_dir st d \<and> d' = d \<and> n' = n then Some f else stored_file st d' n')"
  by (auto simp: stored_file_def is_dir_def put_file_def AList.update_conv'
           split: option.splits item.splits)

lemma map_of_put_file_other: "d' \<noteq> d \<Longrightarrow> map_of (put_file d n f st) d' = map_of st d'"
  by (auto simp: put_file_def AList.update_conv' split: option.splits item.splits)

lemma list_entry_error: "js_startsWith d (lit ''error_'') \<Longrightarrow> list_entry e (d, it) = None"
  by (simp add: list_entry_def split: item.splits)

lemma map_filter_update_error:
  "js_startsWith d (lit ''error_'') \<Longrightarrow>
   List.map_filter (list_entry e) (AList.update d it st) = List.map_filter (list_entry e) st"
  by (induction st) (auto simp: List.map_filter_simps list_entry_error split: option.splits)

lemma map_filter_make_dir_error:
  "js_startsWith d (lit ''error_'') \<Longrightarrow>
   List.map_filter (list_entry e) (make_dir d st) = List.map_filter (list_entry e) st"
  by (auto simp: make_dir_def List.map_filter_def list_entry_error split: option.splits)

lemma map_filter_put_file_error:
  "js_startsWith d (lit ''error_'') \<Longrightarrow>
   List.map_filter (list_entry e) (put_file d n f st) = List.map_filter (list_entry e) st"
  by (auto simp: put_file_def map_filter_update_error split: option.splits item.splits)

lemma attempt_after_error: "attempt action (Some err, st) = (Some err, st)"
  by (simp add: attempt_def)

lemma attempt_mkdir_ok:
  "\<not> mkdir_fails e d \<Longrightarrow> map_of st d \<noteq> Some Other \<Longrightarrow>
   attempt (mkdir e d) (None, st) = (None, make_dir d st)"
  by (simp add: attempt_def mkdir_def)

lemma attempt_mkdir_refused:
  "mkdir_fails e d \<or> map_of st d = Some Other \<Longrightarrow>
   attempt (mkdir e d) (None, st) = (Some (MkdirError d), st)"
  by (auto simp: attempt_def mkdir_def)

lemma attempt_writeFile_ok:
  "\<not> write_fails e d n \<Longrightarrow> is_dir st d \<Longrightarrow>
   attempt (writeFile e d n f) (None, st) = (None, put_file d n f st)"
  by (simp add: attempt_def writeFile_def)

lemma attempt_mkdir_cases:
  "snd (attempt (mkdir e d) w) = snd w \<or> snd (attempt (mkdir e d) w) = make_dir d (snd w)"
  by (auto simp: attempt_def mkdir_def split: option.splits)

lemma attempt_writeFile_cases:
  "snd (attempt (writeFile e d n f) w) = snd w
   \<or> snd (attempt (writeFile e d n f) w) = put_file d n f (snd w)"
  by (auto simp: attempt_def writeFile_def split: option.splits)

lemma error_dir_prefix: "js_startsWith (error_dir e fileName) (lit ''error_'')"
  by (simp add: error_dir_def js_startsWith_def)

lemma save_error_alt:
  "save_error e job fileName err st =
     snd (attempt (writeFile e (error_dir e fileName) (lit ''error.json'')
            (Utf8 (JSON_stringify e (JObj
               [(lit ''jobId'', JStr (job_id job)),
                (lit ''fileName'', JStr fileName),
                (lit ''error'', JStr (error_message e err)),
                (lit ''savedAt'', JStr (iso_errorAt e)),
                (lit ''stack'', JStr (error_stack e err))]))))
          (attempt (mkdir e (error_dir e fileName)) (None, st)))"
  by (simp add: save_error_def error_dir_def Let_def)

lemma listProcessedPDFs_save_error:
  "listProcessedPDFs e' (save_error e job fileName err st) = listProcessedPDFs e' st"
proof -
  let ?d = "error_dir e fileName"
  let ?w1 = "attempt (mkdir e ?d) (None, st)"
  have 1: "List.map_filter (list_entry e') (snd ?w1) = List.map_filter (list_entry e') st"
    using attempt_mkdir_cases[of e ?d "(None, st)"]
    by (auto simp: map_filter_make_dir_error[OF error_dir_prefix])
  have 2: "List.map_filter (list_entry e') (snd (attempt (writeFile e ?d n f) ?w1))
         = List.map_filter (list_entry e') (snd ?w1)" for n f
    using attempt_writeFile_cases[of e ?d n f ?w1]
    by (auto simp: map_filter_put_file_error[OF error_dir_prefix])
  show ?thesis
    unfolding listProcessedPDFs_def save_error_alt by (simp only: 1 2)
qed

lemma save_error_other_files:
  assumes "n \<noteq> lit ''error.json''"
  shows "stored_file (save_error e job fileName err st) d n = stored_file st d n"
proof -
  let ?d = "error_dir e fileName"
  let ?w1 = "attempt (mkdir e ?d) (None, st)"
  have 1: "stored_file (snd ?w1) d n = stored_file st d n"
    using attempt_mkdir_cases[of e ?d "(None, st)"] by (auto simp: stored_file_make_dir)
  have 2: "stored_file (snd (attempt (writeFile e ?d (lit ''error.json'') f) ?w1)) d n
         = stored_file (snd ?w1) d n" for f
    using attempt_writeFile_cases[of e ?d "lit ''error.json''" f ?w1] assms
    by (auto simp: stored_file_put_file)
  show ?thesis unfolding save_error_alt by (simp only: 1 2)
qed

lemma save_error_other_dirs:
  assumes "\<not> js_startsWith d (lit ''error_'')"
  shows "map_of (save_error e job fileName err st) d = map_of st d"
proof -
  let ?d = "error_dir e fileName"
  let ?w1 = "attempt (mkdir e ?d) (None, st)"
  from assms have ne: "d \<noteq> ?d" using error_dir_prefix[of e fileName] by auto
  have 1: "map_of (snd ?w1) d = map_of st d"
    using attempt_mkdir_cases[of e ?d "(None, st)"] ne by (auto simp: map_of_make_dir)
  have 2: "map_of (snd (attempt (writeFile e ?d n f) ?w1)) d = map_of (snd ?w1) d" for n f
    using attempt_writeFile_cases[of e ?d n f ?w1] ne by (auto simp: map_of_put_file_other)
  show ?thesis unfolding save_error_alt by (simp only: 1 2)
qed

lemma save_error_written:
  assumes "writable e st (error_dir e fileName)"
  shows "save_error e job fileName err st =
     put_file (error_dir e fileName) (lit ''error.json'')
       (Utf8 (JSON_stringify e (JObj
               [(lit ''jobId'', JStr (job_id job)),
                (lit ''fileName'', JStr fileName),
                (lit ''error'', JStr (error_message e err)),
                (lit ''savedAt'', JStr (iso_errorAt e)),
                (lit ''stack'', JStr (error_stack e err))])))
       (make_dir (error_dir e fileName) st)"
  using assms
  by (simp add: save_error_alt writable_def written_files_def attempt_mkdir_ok attempt_writeFile_ok
        is_dir_make_dir)

lemma save_error_refused:
  assumes "mkdir_fails e (error_dir e fileName)"
  shows "save_error e job fileName err st = st"
  using assms by (simp add: save_error_alt attempt_mkdir_refused attempt_after_error)

lemma save_error_file:
  assumes "writable e st (error_dir e fileName)"
  shows "is_dir (save_error e job fileName err st) (error_dir e fileName)
     \<and> (\<exists>fields. stored_file (save_error e job fileName err st) (error_dir e fileName)
            (lit ''error.json'')
          = Some (Utf8 (JSON_stringify e (JObj fields)))
          \<and> map_of fields (lit ''jobId'') = Some (JStr (job_id job))
          \<and> map_of fields (lit ''error'') = Some (JStr (error_message e err)))"
proof -
  define fields where "fields =
            [(lit ''jobId'', JStr (job_id job)),
             (lit ''fileName'', JStr fileName),
             (lit ''error'', JStr (error_message e err)),
             (lit ''savedAt'', JStr (iso_errorAt e)),
             (lit ''stack'', JStr (error_stack e err))]"
  from assms have o: "map_of st (error_dir e fileName) \<noteq> Some Other"
    by (simp add: writable_def written_files_def)
  have w: "save_error e job fileName err st =
     put_file (error_dir e fileName) (lit ''error.json'') (Utf8 (JSON_stringify e (JObj fields)))
       (make_dir (error_dir e fileName) st)"
    using save_error_written[OF assms] by (simp add: fields_def)
  have "is_dir (save_error e job fileName err st) (error_dir e fileName)"
    by (simp add: w is_dir_put_file is_dir_make_dir[OF o])
  moreover have "stored_file (save_error e job fileName err st) (error_dir e fileName)
            (lit ''error.json'') = Some (Utf8 (JSON_stringify e (JObj fields)))"
    by (simp add: w stored_file_put_file is_dir_make_dir[OF o])
  moreover have "map_of fields (lit ''jobId'') = Some (JStr (job_id job))"
    "map_of fields (lit ''error'') = Some (JStr (error_message e err))"
    by (simp_all add: fields_def lit_def)
  ultimately show ?thesis by blast
qed

lemma placeholder_nonempty: "placeholder fileName \<noteq> []"
  by (simp add: placeholder_def lit_def)

lemma file_names_distinct:
  "lit ''metadata.json'' \<noteq> lit ''original.pdf''"
  "lit ''metadata.json'' \<noteq> lit ''extracted_text.txt''"
  "lit ''metadata.json'' \<noteq> lit ''chunks.json''"
  "lit ''metadata.json'' \<noteq> lit ''chunks_with_embeddings.json''"
  "lit ''extracted_text.txt'' \<noteq> lit ''original.pdf''"
  "lit ''extracted_text.txt'' \<noteq> lit ''chunks.json''"
  "lit ''extracted_text.txt'' \<noteq> lit ''chunks_with_embeddings.json''"
  "lit ''extracted_text.txt'' \<noteq> lit ''metadata.json''"
  "lit ''error.json'' \<noteq> lit ''metadata.json''"
  by (simp_all add: lit_def)

lemma ingest_result:
  "fst (ingest e job filePath fileName fileBuffer st) =
     \<lparr>res_success = True, res_fileName = fileName,
      res_pdfId = document_dir e job fileName,
      res_textLength = length (fst (extract_text e fileBuffer fileName)),
      res_chunks = length (split_chunks (fst (extract_text e fileBuffer fileName))),
      res_embeddings = length (fst (generate_embeddings (embedContent e) (job_id job)
                          (split_chunks (fst (extract_text e fileBuffer fileName))))),
      res_path = storage_path (document_dir e job fileName),
      res_extractionSuccess = snd (extract_text e fileBuffer fileName)\<rparr>"
  by (simp add: ingest_def document_dir_def Let_def)

text \<open>When the directory of the document is writable, no write of the \<open>try\<close> body throws.\<close>

lemma ingest_no_error:
  assumes "writable e st (document_dir e job fileName)"
  shows "fst (snd (ingest e job filePath fileName fileBuffer st)) = None"
  using assms
  by (simp add: ingest_def document_dir_def writable_def written_files_def Let_def attempt_mkdir_ok
        attempt_writeFile_ok is_dir_put_file is_dir_make_dir)

lemma ingest_is_dir:
  assumes "writable e st (document_dir e job fileName)"
  shows "is_dir (snd (snd (ingest e job filePath fileName fileBuffer st)))
           (document_dir e job fileName)"
  using assms
  by (simp add: ingest_def document_dir_def writable_def written_files_def Let_def attempt_mkdir_ok
        attempt_writeFile_ok is_dir_put_file is_dir_make_dir)

lemma ingest_text_file:
  assumes "writable e st (document_dir e job fileName)"
  shows "stored_file (snd (snd (ingest e job filePath fileName fileBuffer st)))
           (document_dir e job fileName) (lit ''extracted_text.txt'')
         = Some (Utf8 (fst (extract_text e fileBuffer fileName)))"
  using assms
  by (simp add: ingest_def document_dir_def writable_def written_files_def Let_def attempt_mkdir_ok
        attempt_writeFile_ok is_dir_put_file is_dir_make_dir stored_file_put_file
        file_names_distinct)

lemma ingest_metadata_file:
  assumes "writable e st (document_dir e job fileName)"
  shows "\<exists>fields.
     stored_file (snd (snd (ingest e job filePath fileName fileBuffer st)))
       (document_dir e job fileName) (lit ''metadata.json'')
     = Some (Utf8 (JSON_stringify e (JObj fields)))
     \<and> map_of fields (lit ''jobId'') = Some (JStr (job_id job))
     \<and> map_of fields (lit ''textLength'')
         = Some (JNum (real (length (fst (extract_text e fileBuffer fileName)))))
     \<and> map_of fields (lit ''chunksCount'')
         = Some (JNum (real (length (split_chunks (fst (extract_text e fileBuffer fileName))))))
     \<and> map_of fields (lit ''embeddingsGenerated'')
         = Some (JNum (real (res_embeddings (fst (ingest e job filePath fileName fileBuffer st)))))
     \<and> map_of fields (lit ''extractionSuccess'')
         = Some (JBool (snd (extract_text e fileBuffer fileName)))"
proof -
  define extractedText where "extractedText = fst (extract_text e fileBuffer fileName)"
  define chunks where "chunks = split_chunks extractedText"
  define cwe where "cwe = fst (generate_embeddings (embedContent e) (job_id job) chunks)"
  define fields where "fields =
            [(lit ''jobId'', JStr (job_id job)),
             (lit ''fileName'', JStr fileName),
             (lit ''originalName'',
                JStr (case str_or (data_filename job) (Some fileName) of
                        Some n \<Rightarrow> n | None \<Rightarrow> fileName)),
             (lit ''savedAt'', JStr (iso_savedAt e)),
             (lit ''fileSize'', JNum (real (length fileBuffer))),
             (lit ''textLength'', JNum (real (length extractedText))),
             (lit ''chunksCount'', JNum (real (length chunks))),
             (lit ''embeddingsGenerated'', JNum (real (length cwe))),
             (lit ''extractionSuccess'', JBool (snd (extract_text e fileBuffer fileName))),
             (lit ''filePath'', JStr filePath),
             (lit ''storagePath'', JStr (storage_path (document_dir e job fileName))),
             (lit ''processingTime'', JStr (iso_processingTime e))]"
  have f: "stored_file (snd (snd (ingest e job filePath fileName fileBuffer st)))
       (document_dir e job fileName) (lit ''metadata.json'')
     = Some (Utf8 (JSON_stringify e (JObj fields)))"
    using assms
    by (simp add: ingest_def document_dir_def writable_def written_files_def Let_def attempt_mkdir_ok
          attempt_writeFile_ok is_dir_put_file is_dir_make_dir stored_file_put_file
          fields_def extractedText_def chunks_def cwe_def)
  have r: "res_embeddings (fst (ingest e job filePath fileName fileBuffer st)) = length cwe"
    by (simp add: ingest_result cwe_def chunks_def extractedText_def)
  have m: "map_of fields (lit ''jobId'') = Some (JStr (job_id job))"
    "map_of fields (lit ''textLength'') = Some (JNum (real (length extractedText)))"
    "map_of fields (lit ''chunksCount'') = Some (JNum (real (length chunks)))"
    "map_of fields (lit ''embeddingsGenerated'') = Some (JNum (real (length cwe)))"
    "map_of fields (lit ''extractionSuccess'')
       = Some (JBool (snd (extract_text e fileBuffer fileName)))"
    by (simp_all add: fields_def lit_def)
  show ?thesis
    using f m unfolding r extractedText_def chunks_def by blast
qed

text \<open>When the directory of the document cannot be created, the \<open>try\<close> body throws at
  \<open>mkdir\<close> and leaves the storage as it was.\<close>

lemma ingest_mkdir_refused:
  assumes "mkdir_fails e (document_dir e job fileName)
           \<or> map_of st (document_dir e job fileName) = Some Other"
  shows "snd (ingest e job filePath fileName fileBuffer st)
           = (Some (MkdirError (document_dir e job fileName)), st)"
proof -
  have "attempt (mkdir e (document_dir e job fileName)) (None, st)
          = (Some (MkdirError (document_dir e job fileName)), st)"
    using assms by (rule attempt_mkdir_refused)
  then show ?thesis
    by (simp add: ingest_def document_dir_def Let_def attempt_after_error)
qed

lemma process_job_readable:
  assumes "str_or (data_file job) (data_path job) = Some p"
    and "filePath = map (\<lambda>c. if c = 0x5C then 0x2F else c) p"
    and "files filePath = Some fileBuffer"
    and "writable e st (document_dir e job (basename filePath))"
  shows "process_job e files job st =
           (Inr (fst (ingest e job filePath (basename filePath) fileBuffer st)),
            snd (snd (ingest e job filePath (basename filePath) fileBuffer st)))"
  using assms(1-3) ingest_no_error[OF assms(4), of filePath fileBuffer]
  by (simp add: process_job_def Let_def)

lemma process_job_write_refused:
  assumes "str_or (data_file job) (data_path job) = Some p"
    and "filePath = map (\<lambda>c. if c = 0x5C then 0x2F else c) p"
    and "files filePath = Some fileBuffer"
    and "mkdir_fails e (document_dir e job (basename filePath))
         \<or> map_of st (document_dir e job (basename filePath)) = Some Other"
  shows "process_job e files job st =
           (Inl (MkdirError (document_dir e job (basename filePath))),
            save_error e job (basename filePath)
              (MkdirError (document_dir e job (basename filePath))) st)"
  using assms(1-3) ingest_mkdir_refused[OF assms(4), of filePath fileBuffer]
  by (simp add: process_job_def Let_def)

lemma process_job_missing:
  assumes "str_or (data_file job) (data_path job) = Some p"
    and "filePath = map (\<lambda>c. if c = 0x5C then 0x2F else c) p"
    and "files filePath = None"
  shows "process_job e files job st =
           (Inl (AccessError filePath),
            save_error e job (basename filePath) (AccessError filePath) st)"
  using assms by (simp add: process_job_def Let_def)

lemma sample_path:
  "str_or (data_file sample_job) (data_path sample_job) = Some (lit ''uploads/a.pdf'')"
  "lit ''uploads/a.pdf'' = map (\<lambda>c. if c = 0x5C then 0x2F else c) (lit ''uploads/a.pdf'')"
  by (simp_all add: sample_job_def str_or_def lit_def)

lemma sample_basename: "basename (lit ''uploads/a.pdf'') = lit ''a.pdf''"
  by (simp add: basename_def lit_def)

lemma sample_writable: "writable sample_env [] dir"
  by (simp add: writable_def written_files_def sample_env_def)

text \<open>
  C7. For every job whose source file is read and for which \<open>extractPDFText\<close> throws (the
  PDF library rejects the buffer and the fallback gives no more than 100 characters), when
  the file system lets the directory of the document be created and its files be written,
  the handler returns its result with \<open>extractionSuccess = false\<close>, and the directory of
  the document holds \<open>extracted_text.txt\<close> with the placeholder text, which is not empty,
  and \<open>metadata.json\<close> with \<open>extractionSuccess = false\<close>.
\<close>

theorem extraction_failure_record:
  assumes "str_or (data_file job) (data_path job) = Some p"
    and "filePath = map (\<lambda>c. if c = 0x5C then 0x2F else c) p"
    and "files filePath = Some fileBuffer"
    and "extractPDFText (getDocument e) (utf8_decode e) fileBuffer = Inl message"
    and "writable e st (document_dir e job (basename filePath))"
  shows "\<exists>r st' fields.
           process_job e files job st = (Inr r, st')
           \<and> res_extractionSuccess r = False
           \<and> is_dir st' (res_pdfId r)
           \<and> stored_file st' (res_pdfId r) (lit ''extracted_text.txt'')
               = Some (Utf8 (placeholder (basename filePath)))
           \<and> placeholder (basename filePath) \<noteq> []
           \<and> stored_file st' (res_pdfId r) (lit ''metadata.json'')
               = Some (Utf8 (JSON_stringify e (JObj fields)))
           \<and> map_of fields (lit ''extractionSuccess'') = Some (JBool False)
           \<and> map_of fields (lit ''textLength'')
               = Some (JNum (real (length (placeholder (basename filePath)))))"
proof -
  let ?fileName = "basename filePath"
  let ?r = "fst (ingest e job filePath ?fileName fileBuffer st)"
  let ?st = "snd (snd (ingest e job filePath ?fileName fileBuffer st))"
  have x: "extract_text e fileBuffer ?fileName = (placeholder ?fileName, False)"
    using assms(4) by (simp add: extract_text_def)
  have d: "res_pdfId ?r = document_dir e job ?fileName" by (simp add: ingest_result)
  obtain fields where f:
    "stored_file ?st (res_pdfId ?r) (lit ''metadata.json'')
       = Some (Utf8 (JSON_stringify e (JObj fields)))"
    "map_of fields (lit ''extractionSuccess'') = Some (JBool False)"
    "map_of fields (lit ''textLength'') = Some (JNum (real (length (placeholder ?fileName))))"
    using ingest_metadata_file[OF assms(5), of filePath fileBuffer] by (auto simp: x d)
  have "res_extractionSuccess ?r = False" by (simp add: ingest_result x)
  moreover have "stored_file ?st (res_pdfId ?r) (lit ''extracted_text.txt'')
      = Some (Utf8 (placeholder ?fileName))"
    using ingest_text_file[OF assms(5), of filePath fileBuffer] by (simp add: x d)
  moreover have "is_dir ?st (res_pdfId ?r)"
    using ingest_is_dir[OF assms(5), of filePath fileBuffer] by (simp add: d)
  ultimately show ?thesis
    using process_job_readable[where files=files and e=e and st=st, OF assms(1-3) assms(5)]
      f placeholder_nonempty
    by blast
qed

lemma empty_file_extraction:
  "extractPDFText (getDocument sample_env) (utf8_decode sample_env) []
     = Inl (lit ''PDF text extraction failed: '' @ lit ''Invalid PDF structure.'')"
  by (simp add: extractPDFText_def extract_pages_def fallback_lines_def sample_env_def
        ascii_decode_def trim_def Let_def)

text \<open>C7, witness: an empty upload, with the PDF library rejecting it, into an empty
  storage.\<close>

theorem extraction_failure_record_witness:
  "\<exists>r st'. process_job sample_env [lit ''uploads/a.pdf'' \<mapsto> []] sample_job [] = (Inr r, st')
      \<and> res_extractionSuccess r = False
      \<and> stored_file st' (res_pdfId r) (lit ''extracted_text.txt'')
               = Some (Utf8 (placeholder (lit ''a.pdf'')))"
proof -
  have h3: "[lit ''uploads/a.pdf'' \<mapsto> []] (lit ''uploads/a.pdf'') = Some ([]::byte list)"
    by simp
  from extraction_failure_record[where files="[lit ''uploads/a.pdf'' \<mapsto> []]" and st="[]",
      OF sample_path h3 empty_file_extraction sample_writable]
  show ?thesis unfolding sample_basename by blast
qed

lemma embed_loop_calls:
  "snd (foldl (embed_step embedFn jobId cs) state is)
     = snd state @ filter (\<lambda>i. 20 \<le> length (cs ! i)) is"
  by (induction "is" arbitrary: state)
     (auto simp: embed_step_def Let_def split: option.splits)

lemma embed_loop_all_fail:
  "\<forall>i \<in> set is. 20 \<le> length (cs ! i) \<longrightarrow> embedFn (cs ! i) = None \<Longrightarrow>
   fst (foldl (embed_step embedFn jobId cs) state is) = fst state"
  by (induction "is" arbitrary: state)
     (auto simp: embed_step_def Let_def split: option.splits)

lemma embedding_calls:
  "snd (generate_embeddings embedFn jobId cs)
     = filter (\<lambda>i. 20 \<le> length (cs ! i)) [0..<min (length cs) 10]"
  by (simp add: generate_embeddings_def Let_def embed_loop_calls)

lemma embedding_all_fail:
  assumes "\<forall>i \<in> set (snd (generate_embeddings embedFn jobId cs)). embedFn (cs ! i) = None"
  shows "fst (generate_embeddings embedFn jobId cs) = []"
proof -
  have "\<forall>i \<in> set [0..<min (length cs) 10]. 20 \<le> length (cs ! i) \<longrightarrow> embedFn (cs ! i) = None"
    using assms by (simp add: embedding_calls)
  then show ?thesis
    unfolding generate_embeddings_def Let_def by (simp only: embed_loop_all_fail fst_conv)
qed

text \<open>
  C4. For every list of chunks \<open>cs\<close>, the chunks passed to the embedding service are those
  at the indices below \<open>min 10 (length cs)\<close> whose length is at least 20, in order; when
  each of these calls fails, the list of embeddings is empty. For a job that has read its
  file and whose embedding calls all fail, when the file system lets the directory of the
  document be created and its files be written, the handler still returns its result,
  with no embeddings, and the directory of the document holds its \<open>metadata.json\<close>.
\<close>

theorem embedding_best_effort:
  assumes "str_or (data_file job) (data_path job) = Some p"
    and "filePath = map (\<lambda>c. if c = 0x5C then 0x2F else c) p"
    and "files filePath = Some fileBuffer"
    and "chunks = split_chunks (fst (extract_text e fileBuffer (basename filePath)))"
  shows "snd (generate_embeddings embedFn jobId cs)
           = filter (\<lambda>i. 20 \<le> length (cs ! i)) [0..<min (length cs) 10]
     \<and> (\<forall>i \<in> set (snd (generate_embeddings embedFn jobId cs)).
           i < min 10 (length cs) \<and> 20 \<le> length (cs ! i))
     \<and> ((\<forall>i \<in> set (snd (generate_embeddings embedFn jobId cs)). embedFn (cs ! i) = None)
           \<longrightarrow> fst (generate_embeddings embedFn jobId cs) = [])
     \<and> ((\<forall>i \<in> set (snd (generate_embeddings (embedContent e) (job_id job) chunks)).
             embedContent e (chunks ! i) = None)
          \<and> writable e st (document_dir e job (basename filePath))
           \<longrightarrow> (\<exists>r st' fields.
                  process_job e files job st = (Inr r, st')
                  \<and> res_embeddings r = 0
                  \<and> is_dir st' (res_pdfId r)
                  \<and> stored_file st' (res_pdfId r) (lit ''metadata.json'')
                      = Some (Utf8 (JSON_stringify e (JObj fields)))
                  \<and> map_of fields (lit ''embeddingsGenerated'') = Some (JNum 0)))"
proof (intro conjI impI)
  show "snd (generate_embeddings embedFn jobId cs)
           = filter (\<lambda>i. 20 \<le> length (cs ! i)) [0..<min (length cs) 10]"
    by (rule embedding_calls)
  show "\<forall>i \<in> set (snd (generate_embeddings embedFn jobId cs)).
           i < min 10 (length cs) \<and> 20 \<le> length (cs ! i)"
    by (auto simp: embedding_calls)
  show "fst (generate_embeddings embedFn jobId cs) = []"
    if "\<forall>i \<in> set (snd (generate_embeddings embedFn jobId cs)). embedFn (cs ! i) = None"
    using that by (rule embedding_all_fail)
  show "\<exists>r st' fields.
                  process_job e files job st = (Inr r, st')
                  \<and> res_embeddings r = 0
                  \<and> is_dir st' (res_pdfId r)
                  \<and> stored_file st' (res_pdfId r) (lit ''metadata.json'')
                      = Some (Utf8 (JSON_stringify e (JObj fields)))
                  \<and> map_of fields (lit ''embeddingsGenerated'') = Some (JNum 0)"
    if aw: "(\<forall>i \<in> set (snd (generate_embeddings (embedContent e) (job_id job) chunks)).
             embedContent e (chunks ! i) = None)
          \<and> writable e st (document_dir e job (basename filePath))"
  proof -
    let ?fileName = "basename filePath"
    let ?r = "fst (ingest e job filePath ?fileName fileBuffer st)"
    let ?st = "snd (snd (ingest e job filePath ?fileName fileBuffer st))"
    from aw have a: "\<forall>i \<in> set (snd (generate_embeddings (embedContent e) (job_id job) chunks)).
             embedContent e (chunks ! i) = None"
      and w: "writable e st (document_dir e job ?fileName)" by blast+
    have d: "res_pdfId ?r = document_dir e job ?fileName" by (simp add: ingest_result)
    have z: "res_embeddings ?r = 0"
      using embedding_all_fail[OF a] by (simp add: ingest_result assms(4))
    obtain fields where f:
      "stored_file ?st (res_pdfId ?r) (lit ''metadata.json'')
         = Some (Utf8 (JSON_stringify e (JObj fields)))"
      "map_of fields (lit ''embeddingsGenerated'') = Some (JNum 0)"
      using ingest_metadata_file[OF w, of filePath fileBuffer] z by (auto simp: d)
    have "is_dir ?st (res_pdfId ?r)"
      using ingest_is_dir[OF w, of filePath fileBuffer] by (simp add: d)
    then show ?thesis
      using process_job_readable[where files=files and e=e and st=st, OF assms(1-3) w] f z
      by blast
  qed
qed

text \<open>C4, witness: a chunk of 30 characters and a short one; the sample job with the
  embedding service down, into an empty storage.\<close>

theorem embedding_best_effort_witness:
  "snd (generate_embeddings (\<lambda>c. None) (lit ''7'') [replicate 30 0x61, lit ''short'']) = [0]
   \<and> (\<exists>r st'. process_job sample_env [lit ''uploads/a.pdf'' \<mapsto> sample_text_file] sample_job []
                = (Inr r, st')
          \<and> res_embeddings r = 0 \<and> is_dir st' (res_pdfId r))"
proof -
  let ?cs = "[replicate 30 (0x61::jschar), lit ''short'']"
  have h3: "[lit ''uploads/a.pdf'' \<mapsto> sample_text_file] (lit ''uploads/a.pdf'')
              = Some sample_text_file"
    by simp
  note t = embedding_best_effort[where files="[lit ''uploads/a.pdf'' \<mapsto> sample_text_file]"
       and st="[]" and e=sample_env and embedFn="\<lambda>c. None" and jobId="lit ''7''" and cs="?cs",
       OF sample_path h3 refl]
  have c: "filter (\<lambda>i. 20 \<le> length (?cs ! i)) [0..<min (length ?cs) 10] = [0]"
    by (simp add: lit_def upt_rec[of 0] upt_rec[of 1])
  have n: "\<forall>i \<in> set (snd (generate_embeddings (embedContent sample_env) (job_id sample_job)
              (split_chunks (fst (extract_text sample_env sample_text_file
                 (basename (lit ''uploads/a.pdf''))))))).
             embedContent sample_env
               (split_chunks (fst (extract_text sample_env sample_text_file
                 (basename (lit ''uploads/a.pdf'')))) ! i) = None"
    by (simp add: sample_env_def)
  from t n sample_writable have "\<exists>r st' fields.
       process_job sample_env [lit ''uploads/a.pdf'' \<mapsto> sample_text_file] sample_job []
         = (Inr r, st')
       \<and> res_embeddings r = 0 \<and> is_dir st' (res_pdfId r)
       \<and> stored_file st' (res_pdfId r) (lit ''metadata.json'')
            = Some (Utf8 (JSON_stringify sample_env (JObj fields)))
       \<and> map_of fields (lit ''embeddingsGenerated'') = Some (JNum 0)"
    by blast
  moreover from t have "snd (generate_embeddings (\<lambda>c. None) (lit ''7'') ?cs)
      = filter (\<lambda>i. 20 \<le> length (?cs ! i)) [0..<min (length ?cs) 10]"
    by blast
  ultimately show ?thesis unfolding c by blast
qed

text \<open>
  C6 (amended). For every job whose file cannot be accessed, the handler throws the error
  of the access, and the \<open>catch\<close> before it tries to save the error record: when the file
  system lets a directory with the name of the record, which begins with \<open>error_\<close>, be
  created and \<open>error.json\<close> be written into it, the record is there with the message of the
  error and the id of the job; when the save throws, its error is caught and the record
  may be missing. In every case no file of the storage other than \<open>error.json\<close> changes
  (so no \<open>metadata.json\<close> is written), no directory without that prefix changes, and
  \<open>listProcessedPDFs\<close> gives the same documents as before.
\<close>

theorem missing_source_error_record:
  assumes "str_or (data_file job) (data_path job) = Some p"
    and "filePath = map (\<lambda>c. if c = 0x5C then 0x2F else c) p"
    and "files filePath = None"
  shows "\<exists>st'.
           process_job e files job st = (Inl (AccessError filePath), st')
           \<and> (\<forall>d n. n \<noteq> lit ''error.json'' \<longrightarrow> stored_file st' d n = stored_file st d n)
           \<and> (\<forall>d. \<not> js_startsWith d (lit ''error_'') \<longrightarrow> map_of st' d = map_of st d)
           \<and> (\<forall>e'. listProcessedPDFs e' st' = listProcessedPDFs e' st)
           \<and> js_startsWith (error_dir e (basename filePath)) (lit ''error_'')
           \<and> (writable e st (error_dir e (basename filePath)) \<longrightarrow>
                is_dir st' (error_dir e (basename filePath))
                \<and> (\<exists>fields.
                      stored_file st' (error_dir e (basename filePath)) (lit ''error.json'')
                        = Some (Utf8 (JSON_stringify e (JObj fields)))
                      \<and> map_of fields (lit ''jobId'') = Some (JStr (job_id job))
                      \<and> map_of fields (lit ''error'')
                          = Some (JStr (error_message e (AccessError filePath)))))"
proof -
  let ?fileName = "basename filePath"
  let ?err = "AccessError filePath"
  let ?st = "save_error e job ?fileName ?err st"
  have o: "\<forall>d n. n \<noteq> lit ''error.json'' \<longrightarrow> stored_file ?st d n = stored_file st d n"
    by (simp add: save_error_other_files)
  have d: "\<forall>d. \<not> js_startsWith d (lit ''error_'') \<longrightarrow> map_of ?st d = map_of st d"
    by (simp add: save_error_other_dirs)
  have l: "\<forall>e'. listProcessedPDFs e' ?st = listProcessedPDFs e' st"
    by (simp add: listProcessedPDFs_save_error)
  have w: "writable e st (error_dir e ?fileName) \<longrightarrow>
                is_dir ?st (error_dir e ?fileName)
                \<and> (\<exists>fields.
                      stored_file ?st (error_dir e ?fileName) (lit ''error.json'')
                        = Some (Utf8 (JSON_stringify e (JObj fields)))
                      \<and> map_of fields (lit ''jobId'') = Some (JStr (job_id job))
                      \<and> map_of fields (lit ''error'') = Some (JStr (error_message e ?err)))"
    using save_error_file[of e st ?fileName job ?err] by blast
  show ?thesis
    using process_job_missing[where files=files and e=e and st=st, OF assms]
      o d l w error_dir_prefix[of e ?fileName]
    by (intro exI[of _ ?st]) (simp only: simp_thms)
qed

text \<open>C6, witness: the sample job with no file uploaded, into an empty storage.\<close>

theorem missing_source_error_record_witness:
  "\<exists>st'. process_job sample_env Map.empty sample_job []
             = (Inl (AccessError (lit ''uploads/a.pdf'')), st')
         \<and> stored_file st' (error_dir sample_env (lit ''a.pdf'')) (lit ''error.json'') \<noteq> None
         \<and> stored_file st' (error_dir sample_env (lit ''a.pdf'')) (lit ''metadata.json'') = None"
proof -
  have h3: "(Map.empty :: jsstring \<rightharpoonup> byte list) (lit ''uploads/a.pdf'') = None" by simp
  from missing_source_error_record[where files=Map.empty and st="[]" and e=sample_env,
      OF sample_path h3]
  obtain st' where r:
    "process_job sample_env Map.empty sample_job []
       = (Inl (AccessError (lit ''uploads/a.pdf'')), st')"
    "\<forall>d n. n \<noteq> lit ''error.json'' \<longrightarrow> stored_file st' d n = stored_file [] d n"
    "writable sample_env [] (error_dir sample_env (lit ''a.pdf'')) \<longrightarrow>
       (\<exists>fields. stored_file st' (error_dir sample_env (lit ''a.pdf'')) (lit ''error.json'')
                   = Some (Utf8 (JSON_stringify sample_env (JObj fields))))"
    unfolding sample_basename by blast
  from r(3) sample_writable
  have e: "stored_file st' (error_dir sample_env (lit ''a.pdf'')) (lit ''error.json'') \<noteq> None"
    by auto
  from r(2) have "stored_file st' (error_dir sample_env (lit ''a.pdf'')) (lit ''metadata.json'')
      = stored_file [] (error_dir sample_env (lit ''a.pdf'')) (lit ''metadata.json'')"
    using file_names_distinct(9) by metis
  then have "stored_file st' (error_dir sample_env (lit ''a.pdf'')) (lit ''metadata.json'') = None"
    by (simp add: stored_file_def)
  with r(1) e show ?thesis by blast
qed

text \<open>
  C6, counterexample: the sample job with no file uploaded, when the file system lets no
  directory be created in the storage. The handler throws the error of the access and the
  storage stays empty: no error record is written.
\<close>

theorem missing_source_counterexample:
  "process_job read_only_env Map.empty sample_job []
     = (Inl (AccessError (lit ''uploads/a.pdf'')), [])
   \<and> stored_file (snd (process_job read_only_env Map.empty sample_job []))
        (error_dir read_only_env (lit ''a.pdf'')) (lit ''error.json'') = None"
proof -
  have h3: "(Map.empty :: jsstring \<rightharpoonup> byte list) (lit ''uploads/a.pdf'') = None" by simp
  have "mkdir_fails read_only_env (error_dir read_only_env (lit ''a.pdf''))"
    by (simp add: read_only_env_def)
  then have "save_error read_only_env sample_job (lit ''a.pdf'')
               (AccessError (lit ''uploads/a.pdf'')) [] = []"
    by (rule save_error_refused)
  with process_job_missing[where files=Map.empty and st="[]" and e=read_only_env,
      OF sample_path h3]
  show ?thesis by (simp add: sample_basename stored_file_def)
qed

section \<open>Properties of the read paths\<close>

lemma set_insert_by: "set (insert_by cmp x ys) = insert x (set ys)"
  by (induction ys) auto

lemma set_sort_by: "set (sort_by cmp xs) = set xs"
  by (induction xs) (auto simp: sort_by_def set_insert_by)



lemma list_entry_Some:
  "list_entry e entry = Some p \<Longrightarrow> pdf_id p = fst entry \<and> entry_ok e entry"
  by (auto simp: list_entry_def entry_ok_def split: item.splits option.splits if_splits)

lemma list_entry_not_ok: "\<not> entry_ok e entry \<Longrightarrow> list_entry e entry = None"
  using list_entry_Some by (cases "list_entry e entry") auto

lemma map_filter_entry_ok:
  "List.map_filter (list_entry e) (filter (entry_ok e) st) = List.map_filter (list_entry e) st"
  by (induction st) (auto simp: List.map_filter_simps list_entry_not_ok split: option.splits)

lemma listProcessedPDFs_filter:
  "listProcessedPDFs e (filter (entry_ok e) st) = listProcessedPDFs e st"
  by (simp add: listProcessedPDFs_def map_filter_entry_ok)

lemma listProcessedPDFs_entry:
  assumes "p \<in> set (listProcessedPDFs e st)"
  shows "\<exists>entry \<in> set st. list_entry e entry = Some p"
proof -
  from assms have "p \<in> set (List.map_filter (list_entry e) st)"
    by (auto simp: listProcessedPDFs_def Let_def set_sort_by split: if_splits)
  then show ?thesis by (auto simp: List.map_filter_def)
qed

lemma listProcessedPDFs_visible:
  "p \<in> set (listProcessedPDFs e st) \<Longrightarrow> visible_dir e st (pdf_id p)"
proof -
  assume "p \<in> set (listProcessedPDFs e st)"
  then obtain entry where en: "entry \<in> set st" "list_entry e entry = Some p"
    using listProcessedPDFs_entry by blast
  then have "pdf_id p = fst entry" "entry_ok e entry" using list_entry_Some by blast+
  with en(1) have "(pdf_id p, snd entry) \<in> set st \<and> entry_ok e (pdf_id p, snd entry)"
    by simp
  then show ?thesis unfolding visible_dir_def by blast
qed

lemma map_of_filter_distinct:
  "distinct (map fst st) \<Longrightarrow> (k, v) \<in> set st \<Longrightarrow> P (k, v) \<Longrightarrow> map_of (filter P st) k = map_of st k"
  by (induction st) (auto simp: rev_image_eqI)

lemma getPDFContent_filter:
  assumes "distinct (map fst st)" "visible_dir e st i"
  shows "getPDFContent e (filter (entry_ok e) st) i n = getPDFContent e st i n"
proof -
  from assms(2) obtain it where "(i, it) \<in> set st" "entry_ok e (i, it)"
    by (auto simp: visible_dir_def)
  then have "map_of (filter (entry_ok e) st) i = map_of st i"
    using assms(1) by (intro map_of_filter_distinct)
  then show ?thesis by (simp add: getPDFContent_def)
qed

lemma search_pdf_filter:
  assumes "distinct (map fst st)" "visible_dir e st (pdf_id p)"
  shows "search_pdf e (filter (entry_ok e) st) q p = search_pdf e st q p"
  by (simp add: search_pdf_def getPDFContent_filter[OF assms])

lemma search_pdf_id: "r \<in> set (search_pdf e st q p) \<Longrightarrow> sr_pdfId r = pdf_id p"
  by (auto simp: search_pdf_def Let_def split: option.splits if_splits json.splits)

lemma searchPDFs_alt:
  "searchPDFs e st query pdfId =
     sort_by (\<lambda>a b. int (sr_score b) - int (sr_score a))
       (concat (map (search_pdf e st (toLowerCase e query)) (pdfs_to_search e st pdfId)))"
  by (simp add: searchPDFs_def pdfs_to_search_def Let_def)

lemma pdfs_to_search_subset: "set (pdfs_to_search e st pdfId) \<subseteq> set (listProcessedPDFs e st)"
  by (auto simp: pdfs_to_search_def split: option.splits)

lemma pdfs_to_search_filter:
  "pdfs_to_search e (filter (entry_ok e) st) pdfId = pdfs_to_search e st pdfId"
  by (simp add: pdfs_to_search_def listProcessedPDFs_filter split: option.splits)

lemma searchPDFs_filter:
  assumes "distinct (map fst st)"
  shows "searchPDFs e (filter (entry_ok e) st) query pdfId = searchPDFs e st query pdfId"
proof -
  have "search_pdf e (filter (entry_ok e) st) (toLowerCase e query) p
      = search_pdf e st (toLowerCase e query) p" if "p \<in> set (pdfs_to_search e st pdfId)" for p
    using that pdfs_to_search_subset[of e st pdfId] listProcessedPDFs_visible[of p e st]
    by (intro search_pdf_filter[OF assms]) blast
  then have eq: "map (search_pdf e (filter (entry_ok e) st) (toLowerCase e query))
        (pdfs_to_search e st pdfId)
      = map (search_pdf e st (toLowerCase e query)) (pdfs_to_search e st pdfId)"
    by (rule map_cong[OF refl])
  show ?thesis by (simp only: searchPDFs_alt pdfs_to_search_filter eq)
qed

lemma searchPDFs_visible:
  assumes "r \<in> set (searchPDFs e st query pdfId)"
  shows "visible_dir e st (sr_pdfId r)"
proof -
  from assms obtain p where "p \<in> set (pdfs_to_search e st pdfId)"
    "r \<in> set (search_pdf e st (toLowerCase e query) p)"
    by (auto simp: searchPDFs_alt set_sort_by)
  then show ?thesis
    using pdfs_to_search_subset[of e st pdfId] listProcessedPDFs_visible[of p e st]
      search_pdf_id[of r e st _ p] by auto
qed

lemma chat_target_visible:
  "chat_target e st pdfId = Target t \<Longrightarrow> visible_dir e st (pdf_id t)"
proof -
  assume "chat_target e st pdfId = Target t"
  then have "t \<in> set (listProcessedPDFs e st)"
    by (auto simp: chat_target_def Let_def find_Some_iff split: if_splits option.splits
             dest: hd_in_set)
  then show ?thesis by (rule listProcessedPDFs_visible)
qed

lemma chat_target_not_found_visible:
  "chat_target e st pdfId = PdfNotFound ps \<Longrightarrow> p \<in> set ps \<Longrightarrow> visible_dir e st (pdf_id p)"
proof -
  assume "chat_target e st pdfId = PdfNotFound ps" "p \<in> set ps"
  then have "p \<in> set (listProcessedPDFs e st)"
    by (auto simp: chat_target_def Let_def split: if_splits option.splits)
  then show ?thesis by (rule listProcessedPDFs_visible)
qed

lemma chat_target_filter:
  "chat_target e (filter (entry_ok e) st) pdfId = chat_target e st pdfId"
  by (simp add: chat_target_def listProcessedPDFs_filter)

lemma recent_filter: "recent e (filter (entry_ok e) st) = recent e st"
  by (simp add: recent_def listProcessedPDFs_filter)

lemma those_Some_map:
  "those (map f xs) = Some ys \<Longrightarrow> r \<in> set ys \<Longrightarrow> \<exists>x \<in> set xs. f x = Some r"
  by (induction xs arbitrary: ys) (auto split: option.splits)

lemma recent_visible:
  assumes "recent e st = Some (rs, n)" "r \<in> set rs"
  shows "visible_dir e st (re_id r)"
proof -
  from assms(1) have "those (map (recent_entry e) (take 5 (listProcessedPDFs e st))) = Some rs"
    by (auto simp: recent_def Let_def)
  from those_Some_map[OF this assms(2)] obtain p where
    "p \<in> set (take 5 (listProcessedPDFs e st))" "recent_entry e p = Some r" by blast
  then have "p \<in> set (listProcessedPDFs e st)" "re_id r = pdf_id p"
    by (auto simp: recent_entry_def dest: in_set_takeD)
  then show ?thesis using listProcessedPDFs_visible by simp
qed

text \<open>
  C10. Every document that \<open>listProcessedPDFs\<close>, the text search, the target resolution
  of \<open>/chat\<close> (the target, or the list of available documents) and \<open>/recent\<close> give comes
  from an entry of the storage that is a directory, whose name does not begin with
  \<open>error_\<close>, and whose \<open>metadata.json\<close> exists and is accepted by \<open>JSON.parse\<close>. The other
  entries are skipped: each read path gives the same answer as on the storage without them.
\<close>

theorem read_paths_skip_invalid:
  assumes "distinct (map fst st)"
  shows "(\<forall>p \<in> set (listProcessedPDFs e st). visible_dir e st (pdf_id p))
     \<and> (\<forall>r \<in> set (searchPDFs e st query pdfId). visible_dir e st (sr_pdfId r))
     \<and> (\<forall>t. chat_target e st pdfId = Target t \<longrightarrow> visible_dir e st (pdf_id t))
     \<and> (\<forall>ps. chat_target e st pdfId = PdfNotFound ps
            \<longrightarrow> (\<forall>p \<in> set ps. visible_dir e st (pdf_id p)))
     \<and> (\<forall>rs n. recent e st = Some (rs, n) \<longrightarrow> (\<forall>r \<in> set rs. visible_dir e st (re_id r)))
     \<and> listProcessedPDFs e (filter (entry_ok e) st) = listProcessedPDFs e st
     \<and> searchPDFs e (filter (entry_ok e) st) query pdfId = searchPDFs e st query pdfId
     \<and> chat_target e (filter (entry_ok e) st) pdfId = chat_target e st pdfId
     \<and> recent e (filter (entry_ok e) st) = recent e st"
  using listProcessedPDFs_visible searchPDFs_visible chat_target_visible recent_visible
    chat_target_not_found_visible
    listProcessedPDFs_filter searchPDFs_filter[OF assms] chat_target_filter recent_filter
  by (intro conjI ballI allI impI) blast+

lemma sample_list:
  "listProcessedPDFs sample_env sample_storage =
     [\<lparr>pdf_id = lit ''report.pdf_7_1700000000000'', pdf_name = JStr (lit ''report.pdf''),
       pdf_originalName = JStr (lit ''report.pdf''), pdf_savedAt = JUndefined,
       pdf_fileSize = JUndefined, pdf_textLength = JNum 0, pdf_chunks = JNum 0,
       pdf_embeddings = JNum 0, pdf_extractionSuccess = True,
       pdf_path = lit ''pdf-storage/report.pdf_7_1700000000000''\<rparr>]"
  by (simp add: listProcessedPDFs_def sample_storage_def List.map_filter_simps list_entry_def
        js_startsWith_def sample_env_def file_text_def sample_metadata_def get_prop_def
        js_or_def storage_path_def sort_by_def lit_def)

text \<open>C10, witness: a storage with an error record, a plain file, a directory whose
  metadata does not parse, and one document.\<close>

theorem read_paths_skip_invalid_witness:
  "distinct (map fst sample_storage)
   \<and> map pdf_id (listProcessedPDFs sample_env sample_storage) = [lit ''report.pdf_7_1700000000000'']
   \<and> visible_dir sample_env sample_storage (lit ''report.pdf_7_1700000000000'')
   \<and> listProcessedPDFs sample_env (filter (entry_ok sample_env) sample_storage)
       = listProcessedPDFs sample_env sample_storage"
proof -
  have d: "distinct (map fst sample_storage)"
    by (simp add: sample_storage_def lit_def)
  note t = read_paths_skip_invalid[OF d, of sample_env "lit ''refund''" None]
  have m: "map pdf_id (listProcessedPDFs sample_env sample_storage)
             = [lit ''report.pdf_7_1700000000000'']"
    by (simp add: sample_list)
  then have "hd (listProcessedPDFs sample_env sample_storage)
               \<in> set (listProcessedPDFs sample_env sample_storage)"
    by (intro hd_in_set) auto
  with t have "visible_dir sample_env sample_storage
                 (pdf_id (hd (listProcessedPDFs sample_env sample_storage)))"
    by blast
  then have v: "visible_dir sample_env sample_storage (lit ''report.pdf_7_1700000000000'')"
    by (simp add: sample_list)
  from t have "listProcessedPDFs sample_env (filter (entry_ok sample_env) sample_storage)
       = listProcessedPDFs sample_env sample_storage" by blast
  with d m v show ?thesis by blast
qed


lemma js_includes_indexOf: "js_includes s q \<longleftrightarrow> js_indexOf s q \<noteq> None"
  by (induction s) auto




lemma in_pdfs_to_search:
  "p \<in> set (listProcessedPDFs e st) \<Longrightarrow>
   pdfId = None \<or> pdfId = Some [] \<or> pdfId = Some (pdf_id p) \<Longrightarrow>
   p \<in> set (pdfs_to_search e st pdfId)"
  by (auto simp: pdfs_to_search_def)

lemma in_searchPDFs:
  "p \<in> set (pdfs_to_search e st pdfId) \<Longrightarrow> r \<in> set (search_pdf e st (toLowerCase e query) p)
   \<Longrightarrow> r \<in> set (searchPDFs e st query pdfId)"
  by (auto simp: searchPDFs_alt set_sort_by)

lemma search_pdf_filename:
  assumes "getPDFContent e st (pdf_id p) 5000 = Some content" "content \<noteq> []"
    and "pdf_name p = JStr name" "js_includes (toLowerCase e name) q"
  shows "\<lparr>sr_pdfId = pdf_id p, sr_name = pdf_name p, sr_score = 80,
          sr_context = lit ''Filename matches: '' @ name,
          sr_pageRef = None, sr_matchType = Filename\<rparr> \<in> set (search_pdf e st q p)"
  using assms by (simp add: search_pdf_def Let_def)


lemma search_pdf_scores: "r \<in> set (search_pdf e st q p) \<Longrightarrow> sr_score r = 100 \<or> sr_score r = 80"
  by (auto simp: search_pdf_def Let_def split: option.splits if_splits json.splits)

lemma searchPDFs_scores:
  "r \<in> set (searchPDFs e st query pdfId) \<Longrightarrow> sr_score r = 100 \<or> sr_score r = 80"
  by (auto simp: searchPDFs_alt set_sort_by dest: search_pdf_scores)


text \<open>
  C3 (amended). For every document that is searched and whose name is a string that, in
  lower case, contains the lower-cased query: when the text content of the document could
  be read and is not empty, the results contain a result for the document with score 80
  and no page reference, whether the content matched or not; when the content could not be
  read or is empty, the loop body pushes nothing for the document.
\<close>

lemma search_pdf_skipped:
  "getPDFContent e st (pdf_id p) 5000 = None \<or> getPDFContent e st (pdf_id p) 5000 = Some [] \<Longrightarrow>
   search_pdf e st q p = []"
  by (auto simp: search_pdf_def)

theorem filename_match_result:
  assumes "p \<in> set (listProcessedPDFs e st)"
    and "pdfId = None \<or> pdfId = Some [] \<or> pdfId = Some (pdf_id p)"
    and "pdf_name p = JStr name"
    and "js_includes (toLowerCase e name) (toLowerCase e query)"
  shows "(getPDFContent e st (pdf_id p) 5000 = Some content \<and> content \<noteq> [] \<longrightarrow>
            \<lparr>sr_pdfId = pdf_id p, sr_name = pdf_name p, sr_score = 80,
              sr_context = lit ''Filename matches: '' @ name,
              sr_pageRef = None, sr_matchType = Filename\<rparr>
            \<in> set (searchPDFs e st query pdfId))
     \<and> (getPDFContent e st (pdf_id p) 5000 = None
          \<or> getPDFContent e st (pdf_id p) 5000 = Some [] \<longrightarrow>
            search_pdf e st (toLowerCase e query) p = [])"
proof (intro conjI impI)
  assume "getPDFContent e st (pdf_id p) 5000 = Some content \<and> content \<noteq> []"
  then have c: "getPDFContent e st (pdf_id p) 5000 = Some content" "content \<noteq> []" by auto
  show "\<lparr>sr_pdfId = pdf_id p, sr_name = pdf_name p, sr_score = 80,
          sr_context = lit ''Filename matches: '' @ name,
          sr_pageRef = None, sr_matchType = Filename\<rparr> \<in> set (searchPDFs e st query pdfId)"
    using in_searchPDFs[OF in_pdfs_to_search[OF assms(1,2)] search_pdf_filename[OF c assms(3,4)]] .
next
  assume "getPDFContent e st (pdf_id p) 5000 = None
          \<or> getPDFContent e st (pdf_id p) 5000 = Some []"
  then show "search_pdf e st (toLowerCase e query) p = []" by (rule search_pdf_skipped)
qed


lemma sample_list': "listProcessedPDFs sample_env sample_storage = [sample_pdf]"
  by (simp add: sample_list sample_pdf_def)

lemma unreadable_list: "listProcessedPDFs sample_env unreadable_storage = [sample_pdf]"
  by (simp add: listProcessedPDFs_def unreadable_storage_def List.map_filter_simps list_entry_def
        js_startsWith_def sample_env_def file_text_def sample_metadata_def get_prop_def
        js_or_def storage_path_def sort_by_def lit_def sample_pdf_def)

lemma long_list: "listProcessedPDFs sample_env long_storage = [sample_pdf]"
  by (simp add: listProcessedPDFs_def long_storage_def List.map_filter_simps list_entry_def
        js_startsWith_def sample_env_def file_text_def sample_metadata_def get_prop_def
        js_or_def storage_path_def sort_by_def lit_def sample_pdf_def)

lemma sample_content:
  "getPDFContent sample_env sample_storage (pdf_id sample_pdf) 5000
     = Some (lit ''the refund policy allows returns within 30 days [Page 4]'')"
  by (simp add: getPDFContent_def sample_storage_def sample_pdf_def file_text_def Let_def lit_def)

text \<open>C3, witness: the query \<open>REPORT\<close> on the sample storage, whose document
  \<open>report.pdf\<close> does not contain it in its text.\<close>

theorem filename_match_result_witness:
  "\<lparr>sr_pdfId = lit ''report.pdf_7_1700000000000'', sr_name = JStr (lit ''report.pdf''),
     sr_score = 80, sr_context = lit ''Filename matches: '' @ lit ''report.pdf'',
     sr_pageRef = None, sr_matchType = Filename\<rparr>
   \<in> set (searchPDFs sample_env sample_storage (lit ''REPORT'') None)"
proof -
  have h1: "sample_pdf \<in> set (listProcessedPDFs sample_env sample_storage)"
    by (simp add: sample_list')
  have h4: "lit ''the refund policy allows returns within 30 days [Page 4]'' \<noteq> []"
    by (simp add: lit_def)
  have h5: "pdf_name sample_pdf = JStr (lit ''report.pdf'')" by (simp add: sample_pdf_def)
  have h6: "js_includes (toLowerCase sample_env (lit ''report.pdf''))
              (toLowerCase sample_env (lit ''REPORT''))"
    by (simp add: sample_env_def ascii_lower_def lit_def)
  from filename_match_result[OF h1 _ h5 h6, of None
      "lit ''the refund policy allows returns within 30 days [Page 4]''"] sample_content h4
  show ?thesis by (simp add: sample_pdf_def)
qed

text \<open>
  C3, counterexample: a document named \<open>report.pdf\<close> whose \<open>extracted_text.txt\<close> is
  missing. The query \<open>report\<close> matches its name, but \<open>if (!content) continue\<close> leaves the
  loop body before the name is looked at: there is no result.
\<close>

theorem filename_match_counterexample:
  "map pdf_name (listProcessedPDFs sample_env unreadable_storage) = [JStr (lit ''report.pdf'')]
   \<and> js_includes (toLowerCase sample_env (lit ''report.pdf''))
        (toLowerCase sample_env (lit ''report''))
   \<and> getPDFContent sample_env unreadable_storage (lit ''report.pdf_7_1700000000000'') 5000 = None
   \<and> searchPDFs sample_env unreadable_storage (lit ''report'') None = []"
proof -
  have a: "js_includes (toLowerCase sample_env (lit ''report.pdf''))
        (toLowerCase sample_env (lit ''report''))"
    by (simp add: sample_env_def ascii_lower_def lit_def)
  have c: "getPDFContent sample_env unreadable_storage (lit ''report.pdf_7_1700000000000'') 5000
             = None"
    by (simp add: getPDFContent_def unreadable_storage_def lit_def)
  then have "search_pdf sample_env unreadable_storage q sample_pdf = []" for q
    by (simp add: search_pdf_def sample_pdf_def)
  then have "searchPDFs sample_env unreadable_storage (lit ''report'') None = []"
    by (simp add: searchPDFs_def unreadable_list sort_by_def)
  with a c show ?thesis by (simp add: unreadable_list sample_pdf_def)
qed



lemma shift_count_bits:
  "2 ^ 52 * 2 ^ k \<le> n \<Longrightarrow> n < 2 ^ 53 * 2 ^ k \<Longrightarrow> shift_count n = k"
proof (induction k arbitrary: n)
  case 0
  then show ?case by (simp add: shift_count.simps)
next
  case (Suc k)
  have "(2::nat) ^ 53 \<le> 2 ^ 52 * 2 ^ Suc k" by simp
  with Suc.prems have big: "\<not> n < 2 ^ 53" by linarith
  from Suc.prems have "2 * (2 ^ 52 * 2 ^ k) \<le> n" "n < 2 * (2 ^ 53 * 2 ^ k)" by simp_all
  then have "2 ^ 52 * 2 ^ k \<le> n div 2" "n div 2 < 2 ^ 53 * 2 ^ k" by linarith+
  then have "shift_count (n div 2) = k" by (rule Suc.IH)
  with big show ?case by (subst shift_count.simps) simp
qed

text \<open>A page number of twenty digits is not kept exactly.\<close>

lemma parseInt_twenty_digits:
  "parseInt (lit ''12345678901234567890'') = NumberValue 12345678901234567168"
proof -
  have "shift_count 12345678901234567890 = 11"
    by (rule shift_count_bits) simp_all
  then show ?thesis by (simp add: parseInt_def lit_def to_number_def)
qed



lemma sort_by_single: "map f xs = [v] \<Longrightarrow> sort_by cmp xs = xs"
  by (cases xs) (auto simp: sort_by_def)



subsection \<open>The marker of a cut text\<close>

text \<open>
  \<open>getPDFContent\<close> ends a text that it cuts with the marker \<open>... (truncated)\<close>, and
  \<open>searchPDFs\<close> searches what \<open>getPDFContent\<close> gives. A document of 5001 letters \<open>a\<close> is
  found, with score 100, for the query \<open>truncated\<close>, which its text does not contain.
\<close>

lemma js_includes_replicate:
  "q \<noteq> [] \<Longrightarrow> hd q \<noteq> a \<Longrightarrow> js_includes (replicate n a @ s) q = js_includes s q"
  by (induction n) (auto simp: prefix_Cons)

lemma js_indexOf_replicate:
  "q \<noteq> [] \<Longrightarrow> hd q \<noteq> a \<Longrightarrow>
   js_indexOf (replicate n a @ s) q = map_option ((+) n) (js_indexOf s q)"
proof (induction n)
  case 0
  then show ?case by (cases "js_indexOf s q") auto
next
  case (Suc n)
  then show ?case by (cases "js_indexOf s q") (auto simp: prefix_Cons)
qed

lemma ascii_lower_replicate:
  "ascii_lower (replicate n 0x61 @ s) = replicate n 0x61 @ ascii_lower s"
  by (simp add: ascii_lower_def)

lemma long_content:
  "getPDFContent sample_env long_storage (pdf_id sample_pdf) 5000
     = Some (replicate 5000 0x61 @ lit ''... (truncated)'')"
  by (simp add: getPDFContent_def long_storage_def sample_pdf_def file_text_def Let_def
        substring_def lit_def)

lemma long_index:
  "js_indexOf (toLowerCase sample_env (replicate 5000 0x61 @ lit ''... (truncated)''))
     (toLowerCase sample_env (lit ''truncated'')) = Some 5005"
proof -
  have q: "ascii_lower (lit ''truncated'') = lit ''truncated''"
    by (simp add: ascii_lower_def lit_def)
  have s: "ascii_lower (lit ''... (truncated)'') = lit ''... (truncated)''"
    by (simp add: ascii_lower_def lit_def)
  have i: "js_indexOf (lit ''... (truncated)'') (lit ''truncated'') = Some 5"
    by (simp add: lit_def)
  have "js_indexOf (replicate 5000 0x61 @ lit ''... (truncated)'') (lit ''truncated'')
         = map_option ((+) 5000) (js_indexOf (lit ''... (truncated)'') (lit ''truncated''))"
    by (rule js_indexOf_replicate) (simp_all add: lit_def)
  then show ?thesis
    by (simp add: sample_env_def ascii_lower_replicate q s i)
qed

lemma long_text_no_match:
  "\<not> js_includes (toLowerCase sample_env (replicate 5001 0x61))
       (toLowerCase sample_env (lit ''truncated''))"
proof -
  have q: "ascii_lower (lit ''truncated'') = lit ''truncated''"
    by (simp add: ascii_lower_def lit_def)
  have "js_includes (replicate 5001 0x61 @ []) (lit ''truncated'') = js_includes [] (lit ''truncated'')"
    by (rule js_includes_replicate) (simp_all add: lit_def)
  then have "\<not> js_includes (replicate 5001 0x61) (lit ''truncated'')"
    by (simp add: lit_def)
  moreover have "ascii_lower (replicate 5001 0x61) = replicate 5001 0x61"
    using ascii_lower_replicate[of 5001 "[]"] by (simp add: ascii_lower_def)
  ultimately show ?thesis by (simp add: sample_env_def q)
qed

lemma long_name_no_match:
  "\<not> js_includes (toLowerCase sample_env (lit ''report.pdf''))
       (toLowerCase sample_env (lit ''truncated''))"
  by (simp add: sample_env_def ascii_lower_def lit_def)

lemma long_search_scores:
  "map sr_score (searchPDFs sample_env long_storage (lit ''truncated'') None) = [100]"
proof -
  have inc: "js_includes (toLowerCase sample_env (replicate 5000 0x61 @ lit ''... (truncated)''))
     (toLowerCase sample_env (lit ''truncated''))"
    by (simp add: js_includes_indexOf long_index)
  have ne: "replicate 5000 (0x61::jschar) @ lit ''... (truncated)'' \<noteq> []" by simp
  have "map sr_score (search_pdf sample_env long_storage
          (toLowerCase sample_env (lit ''truncated'')) sample_pdf) = [100]"
    unfolding search_pdf_def long_content option.case Let_def
    using inc ne long_name_no_match by (simp add: sample_pdf_def)
  then show ?thesis
    by (simp add: searchPDFs_def long_list sort_by_single)
qed

end
